theory Spec2Isabelle
  imports Complex_Main "HOL-Library.Sublist" "HOL-Library.AList"
begin

section \<open>Python strings\<close>

text \<open>
  A Python \<open>str\<close> is a sequence of Unicode code points, so it is modelled as a list of
  natural numbers. \<open>str\<close> turns an ASCII literal of the source into that representation.
  Python's \<open>sub in s\<close>, \<open>s.startswith(p)\<close> and \<open>s.endswith(p)\<close> are \<open>sublist sub s\<close>,
  \<open>prefix p s\<close> and \<open>suffix p s\<close>.
\<close>

type_synonym pystr = "nat list"

definition str :: "string \<Rightarrow> pystr" where
  "str s = map of_char s"

text \<open>
  \<open>str.strip()\<close> removes leading and trailing white space, which for a \<open>str\<close> is every
  code point for which \<open>str.isspace\<close> holds.
\<close>

definition py_isspace :: "nat \<Rightarrow> bool" where
  "py_isspace c \<longleftrightarrow>
     (9 \<le> c \<and> c \<le> 13) \<or> (28 \<le> c \<and> c \<le> 32) \<or> c = 133 \<or> c = 160 \<or> c = 5760 \<or>
     (8192 \<le> c \<and> c \<le> 8202) \<or> c = 8232 \<or> c = 8233 \<or> c = 8239 \<or> c = 8287 \<or> c = 12288"

definition py_strip :: "pystr \<Rightarrow> pystr" where
  "py_strip s = rev (dropWhile py_isspace (rev (dropWhile py_isspace s)))"

text \<open>
  \<open>str.lower()\<close> restricted to what the source uses it for: the lowered string is only
  compared with the fixed ASCII patterns \<open>=_utf-8_q_\<close>, \<open>=_utf-8_b_\<close> and \<open>.mp4\<close>.
  The letters of these patterns are produced by \<open>lower\<close> from their ASCII capitals
  only, so mapping \<open>A\<close>..\<open>Z\<close> to \<open>a\<close>..\<open>z\<close> and leaving every other code point alone
  gives the same answer to each of these tests.
\<close>

definition lower_cp :: "nat \<Rightarrow> nat" where
  "lower_cp c = (if 65 \<le> c \<and> c \<le> 90 then c + 32 else c)"

definition py_lower :: "pystr \<Rightarrow> pystr" where
  "py_lower s = map lower_cp s"


section \<open>Platform classifier (views.get\_platform)\<close>

datatype platform = Youtube_shorts | Youtube | Facebook | Instagram | Tiktok | Unknown

definition get_platform :: "pystr \<Rightarrow> platform" where
  "get_platform url =
     (if sublist (str ''youtube.com/shorts/'') url then Youtube_shorts
      else if sublist (str ''youtube.com'') url \<or> sublist (str ''youtu.be'') url then Youtube
      else if sublist (str ''facebook.com'') url \<or> sublist (str ''fb.watch'') url then Facebook
      else if sublist (str ''instagram.com'') url then Instagram
      else if sublist (str ''tiktok.com'') url then Tiktok
      else Unknown)"


section \<open>URL shape check (YouTubeDownloader.is\_youtube\_url)\<close>

text \<open>
  The regular expressions the source needs: literals, sequence, alternative, the optional
  group \<open>(r)?\<close> and \<open>.+\<close>. \<open>rests r s\<close> lists what is left of \<open>s\<close> after each way
  \<open>r\<close> can match a prefix of it, so \<open>re.match(r, s) is not None\<close> is \<open>rests r s \<noteq> []\<close>.
  The dot does not match a line feed (code point 10).
\<close>

datatype regex = Lit pystr | Seq regex regex | Alt regex regex | Opt regex | DotPlus

fun dot_plus :: "pystr \<Rightarrow> pystr list" where
  "dot_plus [] = []"
| "dot_plus (c # cs) = (if c = 10 then [] else dot_plus cs @ [cs])"

fun rests :: "regex \<Rightarrow> pystr \<Rightarrow> pystr list" where
  "rests (Lit l) s = (if prefix l s then [drop (length l) s] else [])"
| "rests (Seq a b) s = concat (map (rests b) (rests a s))"
| "rests (Alt a b) s = rests a s @ rests b s"
| "rests (Opt a) s = rests a s @ [s]"
| "rests DotPlus s = dot_plus s"

definition re_match :: "regex \<Rightarrow> pystr \<Rightarrow> bool" where
  "re_match r s \<longleftrightarrow> rests r s \<noteq> []"

text \<open>\<^verbatim>\<open>(https?://)?(www\.)?(youtube|youtu)\.(com|be)/.+\<close>\<close>

definition youtube_regex :: regex where
  "youtube_regex =
     Seq (Opt (Seq (Lit (str ''http'')) (Seq (Opt (Lit (str ''s''))) (Lit (str ''://'')))))
      (Seq (Opt (Lit (str ''www.'')))
        (Seq (Alt (Lit (str ''youtube'')) (Lit (str ''youtu'')))
          (Seq (Lit (str ''.''))
            (Seq (Alt (Lit (str ''com'')) (Lit (str ''be'')))
              (Seq (Lit (str ''/'')) DotPlus)))))"

definition is_youtube_url :: "pystr \<Rightarrow> bool" where
  "is_youtube_url url \<longleftrightarrow> re_match youtube_regex url"


section \<open>Quality map and quality resolver\<close>

text \<open>
  \<open>available_qualities\<close> is a Python dict from a resolution label to
  \<open>{'id': format_id, 'type': 'progressive' | 'video'}\<close>. A dict keeps its keys in
  insertion order and an assignment to a key it already has replaces the value where
  the key stands: this is an association list under \<open>AList.update\<close>.
\<close>

datatype kind = Progressive | Video

record format_ref =
  ref_id :: pystr
  ref_type :: kind

type_synonym quality_map = "(pystr \<times> format_ref) list"

definition has_key :: "pystr \<Rightarrow> quality_map \<Rightarrow> bool" where
  "has_key k m \<longleftrightarrow> map_of m k \<noteq> None"

definition quality_preference :: "pystr list" where
  "quality_preference =
     [str ''2160p'', str ''1440p'', str ''1080p'', str ''720p'',
      str ''480p'', str ''360p'', str ''240p'', str ''144p'']"

text \<open>
  The first loop of \<open>_find_best_quality_match\<close>: it returns at the first label that is
  a key when the request is \<open>best\<close>, and otherwise runs to the end of the list.
\<close>

fun closest_loop :: "pystr \<Rightarrow> quality_map \<Rightarrow> pystr list \<Rightarrow> pystr option" where
  "closest_loop requested available [] = None"
| "closest_loop requested available (quality # rest) =
     (if has_key quality available then
        (if requested = str ''best'' then Some quality
         else if requested = str ''worst'' then closest_loop requested available rest
         else closest_loop requested available rest)
      else closest_loop requested available rest)"

text \<open>The second loop, over \<open>reversed(quality_preference)\<close>.\<close>

fun worst_loop :: "quality_map \<Rightarrow> pystr list \<Rightarrow> pystr option" where
  "worst_loop available [] = None"
| "worst_loop available (quality # rest) =
     (if has_key quality available then Some quality else worst_loop available rest)"

definition find_best_quality_match :: "pystr \<Rightarrow> quality_map \<Rightarrow> pystr option" where
  "find_best_quality_match requested available =
     (if has_key requested available then Some requested
      else case closest_loop requested available quality_preference of
        Some quality \<Rightarrow> Some quality
      | None \<Rightarrow>
          (if requested = str ''worst'' then worst_loop available (rev quality_preference)
           else None))"

text \<open>
  The resolver as the specification words it, in four steps, to be compared with the
  function above.
\<close>

definition match_spec :: "pystr \<Rightarrow> quality_map \<Rightarrow> pystr option" where
  "match_spec requested available =
     (if has_key requested available then Some requested
      else if requested = str ''best'' then
        List.find (\<lambda>q. has_key q available) quality_preference
      else if requested = str ''worst'' then
        List.find (\<lambda>q. has_key q available) (rev quality_preference)
      else None)"



section \<open>Metadata resolver (YouTubeDownloader.get\_video\_info)\<close>

text \<open>
  A format of the extraction engine is a Python dict. An entry read with \<open>f.get(key)\<close>
  may be missing, may hold \<open>None\<close>, or may hold a value; \<open>f['format_id']\<close> raises
  \<open>KeyError\<close> when the key is missing. The value of a Python expression that may be
  \<open>None\<close> is an \<open>option\<close>.
\<close>

datatype 'a field = Absent | Null | Val 'a

fun dict_get :: "'a field \<Rightarrow> 'a \<Rightarrow> 'a option" where
  "dict_get Absent d = Some d"
| "dict_get Null d = None"
| "dict_get (Val v) d = Some v"

fun dict_get_none :: "'a field \<Rightarrow> 'a option" where
  "dict_get_none (Val v) = Some v"
| "dict_get_none Absent = None"
| "dict_get_none Null = None"

record ydl_format =
  format_id :: "pystr option"
  format_note :: "pystr field"
  height :: "int field"
  acodec :: "pystr field"
  abr :: "rat field"

text \<open>
  The engine's info dict, as far as the download path reads it (\<open>title\<close> and
  \<open>formats\<close>; a missing \<open>formats\<close> is the empty list). It stands for a non-empty dict.
\<close>

record ydl_info =
  title :: "pystr field"
  formats :: "ydl_format list"

datatype py_exception = KeyError | TypeError

text \<open>Truth value of a Python string or \<open>None\<close>.\<close>

fun truthy :: "pystr option \<Rightarrow> bool" where
  "truthy None = False"
| "truthy (Some s) = (s \<noteq> [])"

text \<open>The value of the variable \<open>resolution\<close> after the chain on \<open>height\<close>.\<close>

definition resolution_of :: "ydl_format \<Rightarrow> pystr option" where
  "resolution_of f =
     (let resolution = dict_get (format_note f) [];
          height = dict_get (height f) 0
      in if height = Some 2160 then Some (str ''2160p'')
         else if height = Some 1440 then Some (str ''1440p'')
         else if height = Some 1080 then Some (str ''1080p'')
         else if height = Some 720 then Some (str ''720p'')
         else if height = Some 480 then Some (str ''480p'')
         else if height = Some 360 then Some (str ''360p'')
         else resolution)"

text \<open>
  One round of the loop over \<open>formats\<close>. \<open>"audio" in None\<close> raises \<open>TypeError\<close>.
\<close>

definition add_format :: "ydl_format \<Rightarrow> quality_map \<Rightarrow> py_exception + quality_map" where
  "add_format f available_qualities =
     (case format_id f of
        None \<Rightarrow> Inl KeyError
      | Some fid \<Rightarrow>
          (case resolution_of f of
             None \<Rightarrow> Inr available_qualities
           | Some resolution \<Rightarrow>
               if resolution = [] then Inr available_qualities
               else
                 (case dict_get (acodec f) (str ''none'') of
                    None \<Rightarrow> Inl TypeError
                  | Some codec \<Rightarrow>
                      if sublist (str ''audio'') codec
                      then Inr (AList.update resolution
                             \<lparr>ref_id = fid, ref_type = Progressive\<rparr> available_qualities)
                      else Inr (AList.update resolution
                             \<lparr>ref_id = fid, ref_type = Video\<rparr> available_qualities))))"

fun build_qualities :: "ydl_format list \<Rightarrow> quality_map \<Rightarrow> py_exception + quality_map" where
  "build_qualities [] available_qualities = Inr available_qualities"
| "build_qualities (f # fs) available_qualities =
     (case add_format f available_qualities of
        Inl e \<Rightarrow> Inl e
      | Inr m \<Rightarrow> build_qualities fs m)"

text \<open>
  The collaborators outside the repository act on a world \<open>'w\<close> that the model does not
  look into: the extraction engine (\<open>extract_info\<close> with \<open>download=False\<close>), the media
  fetch engine (\<open>ydl.download\<close> with a format and an output template) and the mux tool
  (ffmpeg, on the video file, the audio file and the output file). Each either returns
  or raises; \<open>Raised m\<close> carries \<open>str(e)\<close>. The calls made are recorded in a trace.
\<close>

datatype 'a outcome = Raised pystr | Returned 'a

datatype event =
    Extract pystr
  | Fetch pystr pystr pystr
  | Merge pystr pystr pystr

record 'w engine =
  extract_info :: "pystr \<Rightarrow> 'w \<Rightarrow> ydl_info option outcome \<times> 'w"
  ydl_download :: "pystr \<Rightarrow> pystr \<Rightarrow> pystr \<Rightarrow> 'w \<Rightarrow> unit outcome \<times> 'w"
  ffmpeg_merge :: "pystr \<Rightarrow> pystr \<Rightarrow> pystr \<Rightarrow> 'w \<Rightarrow> unit outcome \<times> 'w"

record 'w state =
  world :: 'w
  trace :: "event list"

text \<open>A call of a collaborator changes the world and extends the trace.\<close>

definition call_extract ::
  "'w engine \<Rightarrow> pystr \<Rightarrow> 'w state \<Rightarrow> ydl_info option outcome \<times> 'w state" where
  "call_extract env url s =
     (case extract_info env url (world s) of
        (r, w) \<Rightarrow> (r, \<lparr>world = w, trace = trace s @ [Extract url]\<rparr>))"

definition call_fetch ::
  "'w engine \<Rightarrow> pystr \<Rightarrow> pystr \<Rightarrow> pystr \<Rightarrow> 'w state \<Rightarrow> unit outcome \<times> 'w state" where
  "call_fetch env fmt outtmpl url s =
     (case ydl_download env fmt outtmpl url (world s) of
        (r, w) \<Rightarrow> (r, \<lparr>world = w, trace = trace s @ [Fetch fmt outtmpl url]\<rparr>))"

definition call_merge ::
  "'w engine \<Rightarrow> pystr \<Rightarrow> pystr \<Rightarrow> pystr \<Rightarrow> 'w state \<Rightarrow> unit outcome \<times> 'w state" where
  "call_merge env video audio out s =
     (case ffmpeg_merge env video audio out (world s) of
        (r, w) \<Rightarrow> (r, \<lparr>world = w, trace = trace s @ [Merge video audio out]\<rparr>))"

record video_info =
  vi_title :: "pystr option"

text \<open>
  \<open>get_video_info\<close> returns \<open>(None, None, None)\<close>, here \<open>None\<close>, when the engine
  raises or returns nothing and when building the map raises; otherwise the triple
  of the video info, the quality map and the engine's info.
\<close>

definition get_video_info ::
  "'w engine \<Rightarrow> pystr \<Rightarrow> 'w state
     \<Rightarrow> (video_info \<times> quality_map \<times> ydl_info) option \<times> 'w state" where
  "get_video_info env video_url s =
     (case call_extract env video_url s of
        (Raised e, s') \<Rightarrow> (None, s')
      | (Returned None, s') \<Rightarrow> (None, s')
      | (Returned (Some info), s') \<Rightarrow>
          (case build_qualities (formats info) [] of
             Inl e \<Rightarrow> (None, s')
           | Inr available_qualities \<Rightarrow>
               (Some (\<lparr>vi_title = dict_get (title info) (str ''Unknown Title'')\<rparr>,
                      available_qualities, info), s')))"


section \<open>Fetch and merge orchestrator (YouTubeDownloader.download\_video)\<close>

datatype download_result =
    Success pystr pystr "pystr list option"
  | Failure pystr

text \<open>
  \<open>Success file_path filename temp_files\<close> is the dict with status \<open>success\<close>; its
  \<open>temp_files\<close> is \<open>None\<close> when the dict has no such key. \<open>Failure message\<close> is the
  dict with status \<open>error\<close>.
\<close>

text \<open>
  The character class of both sanitizers, by code point: \<open><\<close> 60, \<open>>\<close> 62, colon 58,
  double quote 34, slash 47, backslash 92, bar 124, question mark 63, asterisk 42.
\<close>

definition illegal_chars :: "nat set" where
  "illegal_chars = {60, 62, 58, 34, 47, 92, 124, 63, 42}"

text \<open>\<^verbatim>\<open>re.sub(r'[<>:"/\\|?*]', '', filename).strip()\<close>\<close>

definition sanitize_filename :: "pystr \<Rightarrow> pystr" where
  "sanitize_filename filename = py_strip (filter (\<lambda>c. c \<notin> illegal_chars) filename)"

text \<open>
  \<open>str(self.download_folder / name)\<close> on a POSIX system, with the folder \<open>downloads\<close>
  the views construct the downloader with, for a name without a path separator.
\<close>

definition in_download_folder :: "pystr \<Rightarrow> pystr" where
  "in_download_folder name = str ''downloads/'' @ name"

definition download_progressive ::
  "'w engine \<Rightarrow> pystr \<Rightarrow> format_ref \<Rightarrow> pystr \<Rightarrow> 'w state
     \<Rightarrow> (py_exception + download_result) \<times> 'w state" where
  "download_progressive env video_url format_info video_title s =
     (let output_file = in_download_folder (video_title @ str ''.mp4'') in
      case call_fetch env (ref_id format_info) output_file video_url s of
        (Returned u, s') \<Rightarrow>
          (Inr (Success output_file (video_title @ str ''.mp4'') None), s')
      | (Raised e, s') \<Rightarrow> (Inr (Failure e), s'))"

text \<open>
  The candidates of the best-audio selection: \<open>f.get('acodec') != 'none'\<close>, the test
  for an audio codec, and \<open>f.get('abr') is not None\<close>. Then Python's \<open>max\<close> with a
  key: the first of the greatest.
\<close>

definition has_audio_codec :: "ydl_format \<Rightarrow> bool" where
  "has_audio_codec f \<longleftrightarrow> dict_get_none (acodec f) \<noteq> Some (str ''none'')"

definition audio_candidate :: "ydl_format \<Rightarrow> bool" where
  "audio_candidate f \<longleftrightarrow> has_audio_codec f \<and> dict_get_none (abr f) \<noteq> None"

definition abr_key :: "ydl_format \<Rightarrow> rat" where
  "abr_key f = (case abr f of Val b \<Rightarrow> b | _ \<Rightarrow> 0)"

fun max_from :: "('a \<Rightarrow> rat) \<Rightarrow> 'a \<Rightarrow> 'a list \<Rightarrow> 'a" where
  "max_from key best [] = best"
| "max_from key best (x # xs) = max_from key (if key best < key x then x else best) xs"

fun py_max :: "('a \<Rightarrow> rat) \<Rightarrow> 'a list \<Rightarrow> 'a option" where
  "py_max key [] = None"
| "py_max key (x # xs) = Some (max_from key x xs)"

definition download_and_merge ::
  "'w engine \<Rightarrow> pystr \<Rightarrow> format_ref \<Rightarrow> pystr \<Rightarrow> ydl_info \<Rightarrow> 'w state
     \<Rightarrow> (py_exception + download_result) \<times> 'w state" where
  "download_and_merge env video_url format_info video_title full_info s =
     (let video_file = in_download_folder (video_title @ str ''_video.mp4'');
          audio_file = in_download_folder (video_title @ str ''_audio.mp4'');
          output_file = in_download_folder (video_title @ str ''.mp4'')
      in
      case py_max abr_key (filter audio_candidate (formats full_info)) of
        None \<Rightarrow> (Inr (Failure (str ''No valid audio formats found!'')), s)
      | Some best_audio \<Rightarrow>
          (case format_id best_audio of
             None \<Rightarrow> (Inl KeyError, s)
           | Some audio_id \<Rightarrow>
               (case call_fetch env (ref_id format_info) video_file video_url s of
                  (Raised e, s1) \<Rightarrow> (Inr (Failure e), s1)
                | (Returned u1, s1) \<Rightarrow>
                    (case call_fetch env audio_id audio_file video_url s1 of
                       (Raised e, s2) \<Rightarrow> (Inr (Failure e), s2)
                     | (Returned u2, s2) \<Rightarrow>
                         (case call_merge env video_file audio_file output_file s2 of
                            (Raised e, s3) \<Rightarrow> (Inr (Failure e), s3)
                          | (Returned u3, s3) \<Rightarrow>
                              (Inr (Success output_file (video_title @ str ''.mp4'')
                                      (Some [video_file, audio_file])), s3))))))"

definition not_available_message :: "pystr \<Rightarrow> pystr" where
  "not_available_message quality = str ''Quality '' @ [39] @ quality @ [39] @ str '' not available!''"

definition download_video ::
  "'w engine \<Rightarrow> pystr \<Rightarrow> pystr \<Rightarrow> 'w state \<Rightarrow> (py_exception + download_result) \<times> 'w state" where
  "download_video env video_url quality s =
     (if \<not> is_youtube_url video_url then (Inr (Failure (str ''Invalid YouTube URL!'')), s)
      else
        case get_video_info env video_url s of
          (None, s1) \<Rightarrow> (Inr (Failure (str ''No available formats found!'')), s1)
        | (Some (video_info, available_formats, full_info), s1) \<Rightarrow>
            if available_formats = [] then
              (Inr (Failure (str ''No available formats found!'')), s1)
            else
              (case find_best_quality_match quality available_formats of
                 None \<Rightarrow> (Inr (Failure (not_available_message quality)), s1)
               | Some selected_quality \<Rightarrow>
                   if selected_quality = [] then
                     (Inr (Failure (not_available_message quality)), s1)
                   else
                     (case map_of available_formats selected_quality of
                        None \<Rightarrow> (Inl KeyError, s1)
                      | Some format_info \<Rightarrow>
                          (case vi_title video_info of
                             None \<Rightarrow> (Inl TypeError, s1)
                           | Some t \<Rightarrow>
                               let video_title = sanitize_filename t in
                               if ref_type format_info = Progressive then
                                 download_progressive env video_url format_info video_title s1
                               else
                                 download_and_merge env video_url format_info video_title
                                   full_info s1))))"

text \<open>
  The dispatch of \<open>views.download_video\<close> on a URL and a quality already read from the
  request: the response is the JSON error it returns, or the call of \<open>serve_file\<close> or
  of \<open>download_other_platforms\<close> it ends with. An exception of the downloader is
  answered with status 500.
\<close>

datatype response =
    JsonError pystr nat
  | ServerError py_exception
  | ServeFile pystr pystr "pystr list"
  | OtherPlatforms pystr pystr

text \<open>\<^verbatim>\<open>result.get('temp_files', [])\<close>\<close>

fun get_temp_files :: "download_result \<Rightarrow> pystr list" where
  "get_temp_files (Success file_path filename None) = []"
| "get_temp_files (Success file_path filename (Some ts)) = ts"
| "get_temp_files (Failure message) = []"

definition views_download_video ::
  "'w engine \<Rightarrow> pystr \<Rightarrow> pystr \<Rightarrow> 'w state \<Rightarrow> response \<times> 'w state" where
  "views_download_video env raw_url quality s =
     (let url = py_strip raw_url in
      if url = [] then (JsonError (str ''URL is required'') 400, s)
      else if get_platform url = Youtube then
        (case download_video env url quality s of
           (Inl e, s') \<Rightarrow> (ServerError e, s')
         | (Inr (Success file_path filename temp_files), s') \<Rightarrow>
             (ServeFile file_path filename
                (get_temp_files (Success file_path filename temp_files)), s')
         | (Inr (Failure message), s') \<Rightarrow> (JsonError message 400, s'))
      else (OtherPlatforms url quality, s))"



section \<open>Filename cleaner (views.clean\_filename)\<close>

text \<open>
  The decoders of the Python library that \<open>clean_filename\<close> calls are parameters:
  \<open>email.header.decode_header\<close>, \<open>bytes.decode(enc, errors="ignore")\<close>,
  \<open>quopri.decodestring\<close> and \<open>base64.b64decode\<close>. Each returns or raises, \<open>Raised m\<close>
  carrying \<open>str(e)\<close>. \<open>decode_header\<close> yields pairs of a part, which is \<open>bytes\<close> or
  \<open>str\<close>, and a charset, which may be \<open>None\<close>. Bytes are a list of numbers below 256.
  The console is a parameter too: \<open>stdout_encodes c\<close> says whether \<open>sys.stdout\<close> can
  encode the code point \<open>c\<close>.
\<close>

datatype part = Bytes "nat list" | Text pystr

record pylib =
  decode_header :: "pystr \<Rightarrow> (part \<times> pystr option) list outcome"
  bytes_decode :: "pystr \<Rightarrow> nat list \<Rightarrow> pystr outcome"
  quopri_decodestring :: "nat list \<Rightarrow> nat list outcome"
  b64decode :: "pystr \<Rightarrow> nat list outcome"
  stdout_encodes :: "nat \<Rightarrow> bool"

text \<open>
  What is known of the library is written out. \<open>decode_header\<close> searches the header
  for an encoded word, \<open>=?charset?q?text?=\<close> or \<open>=?charset?b?text?=\<close>, and returns
  the header itself, as one \<open>str\<close> part without charset, when there is none; a header
  without a question mark (code point 63) has none.
\<close>

definition py_decode_header :: "pylib \<Rightarrow> pystr \<Rightarrow> (part \<times> pystr option) list outcome" where
  "py_decode_header lib header =
     (if 63 \<in> set header then decode_header lib header
      else Returned [(Text header, None)])"

text \<open>
  \<open>b64decode\<close> of a \<open>str\<close> raises \<open>ValueError\<close> when the string is not pure ASCII.
  Otherwise it discards the characters outside the base64 alphabet, and for a string
  without the padding character \<open>=\<close> (code point 61) it raises \<open>binascii.Error\<close> with
  the message \<open>Incorrect padding\<close> when the number of characters left is 2 or 3
  modulo 4.
\<close>

definition b64_alphabet :: "nat \<Rightarrow> bool" where
  "b64_alphabet c \<longleftrightarrow>
     (65 \<le> c \<and> c \<le> 90) \<or> (97 \<le> c \<and> c \<le> 122) \<or> (48 \<le> c \<and> c \<le> 57) \<or> c = 43 \<or> c = 47"

definition py_b64decode :: "pylib \<Rightarrow> pystr \<Rightarrow> nat list outcome" where
  "py_b64decode lib s =
     (if \<not> list_all (\<lambda>c. c < 128) s
      then Raised (str ''string argument should contain only ASCII characters'')
      else if 61 \<notin> set s \<and> 2 \<le> length (filter b64_alphabet s) mod 4
      then Raised (str ''Incorrect padding'')
      else b64decode lib s)"

text \<open>The loop over \<open>decoded_parts\<close>; it raises when a call in it raises.\<close>

fun decode_parts :: "pylib \<Rightarrow> (part \<times> pystr option) list \<Rightarrow> pystr \<Rightarrow> pystr outcome" where
  "decode_parts lib [] decoded_filename = Returned decoded_filename"
| "decode_parts lib ((Text t, enc) # ps) decoded_filename =
     decode_parts lib ps (decoded_filename @ t)"
| "decode_parts lib ((Bytes b, enc) # ps) decoded_filename =
     (case (if truthy enc then bytes_decode lib (case enc of Some e \<Rightarrow> e | None \<Rightarrow> []) b
            else (case quopri_decodestring lib b of
                    Raised m \<Rightarrow> Raised m
                  | Returned q \<Rightarrow> bytes_decode lib (str ''utf-8'') q)) of
        Raised m \<Rightarrow> Raised m
      | Returned t \<Rightarrow> decode_parts lib ps (decoded_filename @ t))"

text \<open>\<open>b64_part_of\<close> is the name without the marker and without a trailing \<open>=_\<close>.\<close>

definition b64_part_of :: "pystr \<Rightarrow> pystr" where
  "b64_part_of filename =
     (let b64_part = drop (length (str ''=_utf-8_b_'')) filename
      in if suffix (str ''=_'') b64_part then take (length b64_part - 2) b64_part
         else b64_part)"

text \<open>
  The body of the \<open>try\<close> block: the value of \<open>filename\<close> at its end, or the exception
  raised in it. A name that carries neither marker passes unchanged.
\<close>

definition try_decode :: "pylib \<Rightarrow> pystr \<Rightarrow> pystr outcome" where
  "try_decode lib filename =
     (if prefix (str ''=_utf-8_q_'') (py_lower filename) then
        (case py_decode_header lib filename of
           Raised m \<Rightarrow> Raised m
         | Returned decoded_parts \<Rightarrow> decode_parts lib decoded_parts [])
      else if prefix (str ''=_utf-8_b_'') (py_lower filename) then
        (case py_b64decode lib (b64_part_of filename) of
           Raised m \<Rightarrow> Raised m
         | Returned decoded_bytes \<Rightarrow> bytes_decode lib (str ''utf-8'') decoded_bytes)
      else Returned filename)"

text \<open>
  The \<open>except\<close> branch prints
  \<^verbatim>\<open>f"[Filename Decode] Failed to decode '{filename}': {e}"\<close>, with the name as it
  was passed in, followed by a line feed, and then sets the name to \<open>video\<close>. The
  \<open>print\<close> stands outside any \<open>try\<close>: when the console cannot encode a character of
  the text it raises \<open>UnicodeEncodeError\<close>, which leaves \<open>clean_filename\<close>.
\<close>

datatype print_error = UnicodeEncodeError

definition failure_text :: "pystr \<Rightarrow> pystr \<Rightarrow> pystr" where
  "failure_text filename m =
     str ''[Filename Decode] Failed to decode '' @ [39] @ filename @ [39] @ str '': '' @ m @ [10]"

definition print_ok :: "pylib \<Rightarrow> pystr \<Rightarrow> bool" where
  "print_ok lib text \<longleftrightarrow> list_all (stdout_encodes lib) text"

definition decode_filename :: "pylib \<Rightarrow> pystr \<Rightarrow> print_error + pystr" where
  "decode_filename lib filename =
     (case try_decode lib filename of
        Returned decoded \<Rightarrow> Inr decoded
      | Raised m \<Rightarrow>
          if print_ok lib (failure_text filename m) then Inr (str ''video'')
          else Inl UnicodeEncodeError)"

text \<open>
  The steps after the decoding, up to and including \<open>strip\<close>: illegal characters
  become an underscore (code point 95), and with \<open>ascii_only\<close> the characters outside
  ASCII are dropped.
\<close>

definition safe_stem :: "bool \<Rightarrow> pystr \<Rightarrow> pystr" where
  "safe_stem ascii_only filename =
     (let filename = map (\<lambda>c. if c \<in> illegal_chars then 95 else c) filename;
          filename = (if ascii_only then filter (\<lambda>c. c < 128) filename else filename)
      in py_strip filename)"

definition clean_filename :: "pylib \<Rightarrow> bool \<Rightarrow> pystr \<Rightarrow> print_error + pystr" where
  "clean_filename lib ascii_only filename =
     (case decode_filename lib filename of
        Inl e \<Rightarrow> Inl e
      | Inr decoded \<Rightarrow>
          (let filename = safe_stem ascii_only decoded
           in if \<not> suffix (str ''.mp4'') (py_lower filename)
              then Inr (filename @ str ''.mp4'')
              else Inr filename))"


section \<open>Streaming file server (file\_iterator of views.serve\_file)\<close>

text \<open>
  The file system holds, for each path that exists, a file: its bytes, and whether
  \<open>os.remove\<close> is permitted on it. It is an association list with one entry for a path.
  \<open>os.remove\<close> raises \<open>FileNotFoundError\<close> on a missing path and \<open>PermissionError\<close>
  on a file that may not be removed, both of them \<open>OSError\<close>. Every call of
  \<open>os.remove\<close> is recorded, with whether it removed the file.
\<close>

datatype os_error = FileNotFoundError | PermissionError

record disk_file =
  content :: "nat list"
  removable :: bool

record fs_state =
  files :: "(pystr \<times> disk_file) list"
  removals :: "(pystr \<times> bool) list"

definition os_remove :: "pystr \<Rightarrow> fs_state \<Rightarrow> os_error option \<times> fs_state" where
  "os_remove path st =
     (case map_of (files st) path of
        None \<Rightarrow> (Some FileNotFoundError, st\<lparr>removals := removals st @ [(path, False)]\<rparr>)
      | Some f \<Rightarrow>
          if removable f
          then (None, \<lparr>files = AList.delete path (files st),
                        removals = removals st @ [(path, True)]\<rparr>)
          else (Some PermissionError, st\<lparr>removals := removals st @ [(path, False)]\<rparr>))"

definition os_path_exists :: "pystr \<Rightarrow> fs_state \<Rightarrow> bool" where
  "os_path_exists path st \<longleftrightarrow> map_of (files st) path \<noteq> None"

text \<open>The loop over \<open>temp_files\<close>: an \<open>OSError\<close> leaves it.\<close>

fun remove_temp_files :: "pystr list \<Rightarrow> fs_state \<Rightarrow> os_error option \<times> fs_state" where
  "remove_temp_files [] st = (None, st)"
| "remove_temp_files (temp_file # rest) st =
     (if os_path_exists temp_file st then
        (case os_remove temp_file st of
           (Some e, st') \<Rightarrow> (Some e, st')
         | (None, st') \<Rightarrow> remove_temp_files rest st')
      else remove_temp_files rest st)"

text \<open>
  The \<open>try\<close> block after the read loop, with its \<open>except OSError: pass\<close>.
  \<open>temp_files\<close> is \<open>None\<close> or a list.
\<close>

definition cleanup :: "pystr \<Rightarrow> pystr list option \<Rightarrow> fs_state \<Rightarrow> fs_state" where
  "cleanup path temp_files st =
     (case os_remove path st of
        (Some e, st') \<Rightarrow> st'
      | (None, st') \<Rightarrow>
          (case temp_files of
             None \<Rightarrow> st'
           | Some ts \<Rightarrow> if ts = [] then st' else snd (remove_temp_files ts st')))"

text \<open>\<^verbatim>\<open>while chunk := f.read(chunk_size): yield chunk\<close>\<close>

function read_chunks :: "nat \<Rightarrow> nat list \<Rightarrow> nat list list" where
  "read_chunks chunk_size bytes =
     (if take chunk_size bytes = [] then []
      else take chunk_size bytes # read_chunks chunk_size (drop chunk_size bytes))"
  by pat_completeness auto
termination
  by (relation "measure (\<lambda>(n, bs). length bs)") (auto simp: take_eq_Nil)

declare read_chunks.simps [simp del]

text \<open>
  The generator run to its end: \<open>open\<close> raises on a missing file, before anything is
  yielded; otherwise the chunks are yielded and the cleanup runs.
\<close>

definition file_iterator ::
  "pystr \<Rightarrow> pystr list option \<Rightarrow> fs_state \<Rightarrow> os_error + (nat list list \<times> fs_state)" where
  "file_iterator path temp_files st =
     (case map_of (files st) path of
        None \<Rightarrow> Inl FileNotFoundError
      | Some f \<Rightarrow> Inr (read_chunks 8192 (content f), cleanup path temp_files st))"

text \<open>The paths of \<open>temp_files\<close>, none when it is \<open>None\<close>.\<close>

fun temp_list :: "pystr list option \<Rightarrow> pystr list" where
  "temp_list None = []"
| "temp_list (Some ts) = ts"

text \<open>
  The cleanup in the words of the amended claim, to be compared with \<open>cleanup\<close>. The
  targets are the source file and then, in the order of \<open>temp_files\<close>, every path that
  still exists when its turn comes: every path other than the source, at its first
  occurrence, that exists before the cleanup. A target may be removed when
  \<open>os.remove\<close> is permitted on it.
\<close>

fun first_occurrences :: "'a list \<Rightarrow> 'a list" where
  "first_occurrences [] = []"
| "first_occurrences (x # xs) = x # filter (\<lambda>y. y \<noteq> x) (first_occurrences xs)"

definition cleanup_targets :: "pystr \<Rightarrow> pystr list option \<Rightarrow> fs_state \<Rightarrow> pystr list" where
  "cleanup_targets path temp_files st =
     path # filter (\<lambda>t. t \<noteq> path \<and> os_path_exists t st)
              (first_occurrences (temp_list temp_files))"

definition may_remove :: "fs_state \<Rightarrow> pystr \<Rightarrow> bool" where
  "may_remove st p \<longleftrightarrow> (case map_of (files st) p of None \<Rightarrow> False | Some f \<Rightarrow> removable f)"


section \<open>Concrete inputs\<close>

text \<open>
  Formats as the engine reports them for a video: a 360p stream that carries audio
  (codec \<open>mp4a.40.2\<close>), video-only streams of 240p and 1080p (codec \<open>none\<close>), and a
  storyboard without a format note.
\<close>

definition itag18 :: ydl_format where
  "itag18 = \<lparr>format_id = Some (str ''18''), format_note = Val (str ''360p''),
     height = Val 360, acodec = Val (str ''mp4a.40.2''), abr = Val 96\<rparr>"

definition itag133 :: ydl_format where
  "itag133 = \<lparr>format_id = Some (str ''133''), format_note = Val (str ''240p''),
     height = Val 240, acodec = Val (str ''none''), abr = Absent\<rparr>"

definition itag137 :: ydl_format where
  "itag137 = \<lparr>format_id = Some (str ''137''), format_note = Val (str ''1080p''),
     height = Val 1080, acodec = Val (str ''none''), abr = Absent\<rparr>"

definition storyboard :: ydl_format where
  "storyboard = \<lparr>format_id = Some (str ''sb0''), format_note = Absent,
     height = Val 27, acodec = Val (str ''none''), abr = Absent\<rparr>"


text \<open>
  A stream whose codec string contains the word \<open>audio\<close>, which is what the
  classification looks for.
\<close>

definition muxed360 :: ydl_format where
  "muxed360 = \<lparr>format_id = Some (str ''18''), format_note = Val (str ''360p''),
     height = Val 360, acodec = Val (str ''audio: mp4a''), abr = Val 96\<rparr>"

text \<open>Two answers of the extraction engine.\<close>

definition video_only_info :: ydl_info where
  "video_only_info = \<lparr>title = Val (str ''My: Video?''), formats = [itag137, itag133, storyboard]\<rparr>"

definition muxed_info :: ydl_info where
  "muxed_info = \<lparr>title = Val (str ''My: Video?''), formats = [muxed360, itag137]\<rparr>"

text \<open>
  An engine whose world is the list of the files written so far: the extraction returns
  the given info, every fetch succeeds and writes its output template, and the mux tool
  succeeds and writes its output file.
\<close>

definition disk_engine :: "ydl_info \<Rightarrow> (pystr list) engine" where
  "disk_engine info =
     \<lparr>extract_info = (\<lambda>url w. (Returned (Some info), w)),
      ydl_download = (\<lambda>fmt outtmpl url w. (Returned (), w @ [outtmpl])),
      ffmpeg_merge = (\<lambda>video audio out w. (Returned (), w @ [out]))\<rparr>"

definition watch_url :: pystr where
  "watch_url = str ''https://www.youtube.com/watch?v=abc''"

text \<open>
  A console that encodes UTF-8, that is every code point but the surrogates, with a
  library whose \<open>decode_header\<close> finds no encoded word. The names below stay within
  the part of the library written out above, so the other three decoders of this
  record are not consulted.
\<close>

definition utf8_console :: pylib where
  "utf8_console =
     \<lparr>decode_header = (\<lambda>header. Returned [(Text header, None)]),
      bytes_decode = (\<lambda>enc bytes. Raised (str ''unknown encoding'')),
      quopri_decodestring = (\<lambda>bytes. Returned bytes),
      b64decode = (\<lambda>s. Raised (str ''Incorrect padding'')),
      stdout_encodes = (\<lambda>c. c < 55296 \<or> (57343 < c \<and> c < 1114112))\<rparr>"


text \<open>
  The download folder after a merged download: the final file, the video intermediate,
  which may not be removed, and the audio intermediate.
\<close>

definition merged_disk :: fs_state where
  "merged_disk =
     \<lparr>files =
        [(str ''downloads/My Video.mp4'', \<lparr>content = [0, 1, 2], removable = True\<rparr>),
         (str ''downloads/My Video_video.mp4'', \<lparr>content = [3, 4], removable = False\<rparr>),
         (str ''downloads/My Video_audio.mp4'', \<lparr>content = [5], removable = True\<rparr>)],
      removals = []\<rparr>"

text \<open>The same folder with a thumbnail beside the three files.\<close>

definition cluttered_disk :: fs_state where
  "cluttered_disk =
     \<lparr>files =
        [(str ''downloads/My Video.mp4'', \<lparr>content = [0, 1, 2], removable = True\<rparr>),
         (str ''downloads/My Video_video.mp4'', \<lparr>content = [3, 4], removable = False\<rparr>),
         (str ''downloads/My Video_audio.mp4'', \<lparr>content = [5], removable = True\<rparr>),
         (str ''downloads/My Video.jpg'', \<lparr>content = [6], removable = True\<rparr>)],
      removals = []\<rparr>"


section \<open>Strings: basic facts\<close>

lemma str_eq_iff: "str a = str b \<longleftrightarrow> a = b"
  unfolding str_def by (simp add: inj_map_eq_map inj_of_char)

lemma str_best_neq_worst: "str ''best'' \<noteq> str ''worst''"
  by (simp add: str_eq_iff)


section \<open>Quality resolver: the four steps\<close>

lemma closest_loop_best:
  "closest_loop (str ''best'') available qs = List.find (\<lambda>q. has_key q available) qs"
  by (induction qs) simp_all

lemma closest_loop_other:
  "requested \<noteq> str ''best'' \<Longrightarrow> closest_loop requested available qs = None"
  by (induction qs) simp_all

lemma worst_loop_find:
  "worst_loop available qs = List.find (\<lambda>q. has_key q available) qs"
  by (induction qs) simp_all

text \<open>
  C1. For every quality map and every requested string, \<open>_find_best_quality_match\<close>
  returns what the four-step algorithm returns: the requested string when it is a key;
  otherwise, for \<open>best\<close>, the first key met scanning the preference list top-down;
  otherwise, for \<open>worst\<close>, the first key met scanning it bottom-up; otherwise nothing.
  (Where no label of the list is a key, \<open>best\<close> and \<open>worst\<close> yield nothing as well.)
\<close>

theorem find_best_quality_match_four_steps:
  "find_best_quality_match requested available = match_spec requested available"
proof (cases "requested = str ''best''")
  case True
  then show ?thesis
    by (simp add: find_best_quality_match_def match_spec_def closest_loop_best
        str_best_neq_worst split: option.splits)
next
  case False
  then show ?thesis
    by (simp add: find_best_quality_match_def match_spec_def closest_loop_other
        worst_loop_find)
qed


lemma quality_match_examples:
  "find_best_quality_match (str ''best'')
     [(str ''360p'', v1), (str ''720p'', v2), (str ''480p'', v3)] = Some (str ''720p'')"
  "find_best_quality_match (str ''worst'')
     [(str ''360p'', v1), (str ''720p'', v2), (str ''480p'', v3)] = Some (str ''360p'')"
  "find_best_quality_match (str ''480p'')
     [(str ''360p'', v1), (str ''720p'', v2), (str ''480p'', v3)] = Some (str ''480p'')"
  "find_best_quality_match (str ''1080p'')
     [(str ''360p'', v1), (str ''720p'', v2), (str ''480p'', v3)] = None"
  by (simp_all add: find_best_quality_match_def has_key_def quality_preference_def str_def)


section \<open>Platform classifier\<close>

lemma sublist_shorts_youtube: "sublist (str ''youtube.com'') (str ''youtube.com/shorts/'')"
  by (simp add: str_def sublist_Cons_right)

text \<open>
  C7. \<open>get_platform\<close> is a total function of the URL. Every URL that contains
  \<open>youtube.com/shorts/\<close> is classified \<open>youtube_shorts\<close>, although it also contains
  \<open>youtube.com\<close>, the pattern of the next branch; every URL that contains none of the
  platform patterns is classified \<open>unknown\<close>.
\<close>

theorem get_platform_shorts_first_unknown_last:
  "(sublist (str ''youtube.com/shorts/'') url \<longrightarrow>
      sublist (str ''youtube.com'') url \<and> get_platform url = Youtube_shorts) \<and>
   (\<not> sublist (str ''youtube.com/shorts/'') url \<and> \<not> sublist (str ''youtube.com'') url \<and>
    \<not> sublist (str ''youtu.be'') url \<and> \<not> sublist (str ''facebook.com'') url \<and>
    \<not> sublist (str ''fb.watch'') url \<and> \<not> sublist (str ''instagram.com'') url \<and>
    \<not> sublist (str ''tiktok.com'') url \<longrightarrow> get_platform url = Unknown)"
proof (intro conjI impI)
  assume shorts: "sublist (str ''youtube.com/shorts/'') url"
  from sublist_shorts_youtube shorts show "sublist (str ''youtube.com'') url"
    by (rule sublist_order.order.trans)
  from shorts show "get_platform url = Youtube_shorts"
    by (simp add: get_platform_def)
next
  assume "\<not> sublist (str ''youtube.com/shorts/'') url \<and> \<not> sublist (str ''youtube.com'') url \<and>
    \<not> sublist (str ''youtu.be'') url \<and> \<not> sublist (str ''facebook.com'') url \<and>
    \<not> sublist (str ''fb.watch'') url \<and> \<not> sublist (str ''instagram.com'') url \<and>
    \<not> sublist (str ''tiktok.com'') url"
  then show "get_platform url = Unknown"
    by (simp add: get_platform_def)
qed

theorem get_platform_witness:
  "sublist (str ''youtube.com/shorts/'')
     (str ''https://www.youtube.com/shorts/abc?feature=share'') \<and>
   get_platform (str ''https://www.youtube.com/shorts/abc?feature=share'') = Youtube_shorts \<and>
   get_platform (str ''https://example.org/v.mp4'') = Unknown"
proof -
  have a: "sublist (str ''youtube.com/shorts/'')
      (str ''https://www.youtube.com/shorts/abc?feature=share'')"
    by (simp add: str_def sublist_Cons_right)
  have b: "\<not> sublist (str ''youtube.com/shorts/'') (str ''https://example.org/v.mp4'') \<and>
    \<not> sublist (str ''youtube.com'') (str ''https://example.org/v.mp4'') \<and>
    \<not> sublist (str ''youtu.be'') (str ''https://example.org/v.mp4'') \<and>
    \<not> sublist (str ''facebook.com'') (str ''https://example.org/v.mp4'') \<and>
    \<not> sublist (str ''fb.watch'') (str ''https://example.org/v.mp4'') \<and>
    \<not> sublist (str ''instagram.com'') (str ''https://example.org/v.mp4'') \<and>
    \<not> sublist (str ''tiktok.com'') (str ''https://example.org/v.mp4'')"
    by (simp add: str_def sublist_Cons_right)
  from a b
    get_platform_shorts_first_unknown_last
      [of "str ''https://www.youtube.com/shorts/abc?feature=share''"]
    get_platform_shorts_first_unknown_last [of "str ''https://example.org/v.mp4''"]
  show ?thesis by blast
qed


section \<open>URL shape check against the classifier\<close>

lemma download_video_invalid_url:
  "\<not> is_youtube_url url \<Longrightarrow>
   download_video env url quality s = (Inr (Failure (str ''Invalid YouTube URL!'')), s)"
  by (simp add: download_video_def)

lemma path_url_classified: "get_platform (str ''https://example.com/youtube.com'') = Youtube"
  by (simp add: get_platform_def str_def sublist_Cons_right)

lemma path_url_rejected: "\<not> is_youtube_url (str ''https://example.com/youtube.com'')"
  by (simp add: is_youtube_url_def re_match_def youtube_regex_def str_def)

lemma path_url_nonempty: "str ''https://example.com/youtube.com'' \<noteq> []"
  by (simp add: str_def)

lemma path_url_strip:
  "py_strip (str ''https://example.com/youtube.com'') = str ''https://example.com/youtube.com''"
  by (simp add: py_strip_def str_def py_isspace_def)

text \<open>
  C10, as stated, ends by calling the URL check strictly stronger than the classifier's
  substring test. It is not: \<open>youtu.com/x\<close> passes the URL check, since the expression
  pairs either name with either domain, and the classifier, which looks for
  \<open>youtube.com\<close> and \<open>youtu.be\<close>, labels it \<open>unknown\<close>.
\<close>

theorem url_check_not_stronger_counterexample:
  "is_youtube_url (str ''youtu.com/x'') \<and> get_platform (str ''youtu.com/x'') = Unknown"
  by (simp add: is_youtube_url_def re_match_def youtube_regex_def get_platform_def str_def
      sublist_Cons_right)

text \<open>
  C10, amended. There is a URL that the classifier labels \<open>youtube\<close>, because it
  contains \<open>youtube.com\<close> in its path, and that the URL check of the orchestrator
  rejects: for it \<open>download_video\<close> returns the failure \<open>Invalid YouTube URL!\<close> with the
  state as it was, so without a call of the extraction engine, and the view answers with
  that message and status 400. The URL check is not the stronger test throughout: there
  is also a URL that it accepts and the classifier labels \<open>unknown\<close>.
\<close>

theorem url_check_rejects_classified_url:
  "(\<exists>url. get_platform url = Youtube \<and> \<not> is_youtube_url url \<and>
      (\<forall>(env :: 'w engine) quality s.
         download_video env url quality s =
           (Inr (Failure (str ''Invalid YouTube URL!'')), s) \<and>
         views_download_video env url quality s =
           (JsonError (str ''Invalid YouTube URL!'') 400, s))) \<and>
   (\<exists>url. is_youtube_url url \<and> get_platform url = Unknown)"
proof (intro conjI exI allI)
  show "get_platform (str ''https://example.com/youtube.com'') = Youtube"
    by (rule path_url_classified)
  show "\<not> is_youtube_url (str ''https://example.com/youtube.com'')"
    by (rule path_url_rejected)
  show "download_video env (str ''https://example.com/youtube.com'') quality s =
      (Inr (Failure (str ''Invalid YouTube URL!'')), s)" for env :: "'w engine" and quality s
    by (rule download_video_invalid_url [OF path_url_rejected])
  show "views_download_video env (str ''https://example.com/youtube.com'') quality s =
      (JsonError (str ''Invalid YouTube URL!'') 400, s)" for env :: "'w engine" and quality s
    using path_url_classified path_url_nonempty
    by (simp add: views_download_video_def path_url_strip Let_def
        download_video_invalid_url [OF path_url_rejected])
  show "is_youtube_url (str ''youtu.com/x'')"
    by (simp add: is_youtube_url_def re_match_def youtube_regex_def str_def)
  show "get_platform (str ''youtu.com/x'') = Unknown"
    by (simp add: get_platform_def str_def sublist_Cons_right)
qed


section \<open>Building the quality map\<close>

text \<open>
  C2. The classification looks for the word \<open>audio\<close> inside the \<open>acodec\<close> string. The
  360p stream below has an audio codec, \<open>mp4a.40.2\<close>, which \<open>_download_and_merge\<close>
  would accept as one (\<open>acodec != 'none'\<close>), and it is entered as \<open>video\<close>, the kind
  that is fetched twice and merged.
\<close>

theorem audio_format_classified_video:
  "has_audio_codec itag18 \<and>
   build_qualities [itag18] [] =
     Inr [(str ''360p'', \<lparr>ref_id = str ''18'', ref_type = Video\<rparr>)]"
  by (simp add: has_audio_codec_def itag18_def add_format_def resolution_of_def str_def
      sublist_Cons_right)

text \<open>
  C3, as stated, fails: a format of height 240, which is none of the six heights, is
  not dropped. It is entered under its format note.
\<close>

theorem other_height_kept_counterexample:
  "height itag133 = Val 240 \<and>
   build_qualities [itag133] [] =
     Inr [(str ''240p'', \<lparr>ref_id = str ''133'', ref_type = Video\<rparr>)]"
  by (simp add: itag133_def add_format_def resolution_of_def str_def sublist_Cons_right)

lemma add_format_cases:
  assumes "add_format f m = Inr m'"
  shows "(m' = m \<and> \<not> (\<exists>r. r \<noteq> [] \<and> resolution_of f = Some r)) \<or>
         (\<exists>r v. r \<noteq> [] \<and> resolution_of f = Some r \<and> m' = AList.update r v m)"
  using assms
  by (auto simp: add_format_def split: option.splits if_splits)

lemma add_format_keys:
  assumes "add_format f m = Inr m'"
  shows "fst ` set m' = fst ` set m \<union> {r. r \<noteq> [] \<and> resolution_of f = Some r}"
proof -
  from add_format_cases [OF assms] show ?thesis
  proof (elim disjE exE conjE)
    assume "m' = m" "\<not> (\<exists>r. r \<noteq> [] \<and> resolution_of f = Some r)"
    then show ?thesis by auto
  next
    fix r v
    assume r: "r \<noteq> []" "resolution_of f = Some r" and m': "m' = AList.update r v m"
    from r have "{r'. r' \<noteq> [] \<and> resolution_of f = Some r'} = {r}" by auto
    with m' show ?thesis by (simp add: dom_update Un_commute)
  qed
qed

lemma build_qualities_keys:
  "build_qualities fs m = Inr m' \<Longrightarrow>
   fst ` set m' = fst ` set m \<union> {r. r \<noteq> [] \<and> (\<exists>f \<in> set fs. resolution_of f = Some r)}"
proof (induction fs arbitrary: m)
  case Nil
  then show ?case by simp
next
  case (Cons f fs)
  from Cons.prems obtain m1 where step: "add_format f m = Inr m1"
    and rest: "build_qualities fs m1 = Inr m'"
    by (auto split: sum.splits)
  from Cons.IH [OF rest] add_format_keys [OF step] show ?case
    by auto
qed

lemma has_key_iff: "has_key k m \<longleftrightarrow> k \<in> fst ` set m"
  by (simp add: has_key_def map_of_eq_None_iff)

text \<open>
  C3, amended. When the quality map is built, a height is turned into a canonical
  label only when it is exactly one of 2160, 1440, 1080, 720, 480 and 360; a format of
  any other height is not moved to a nearby label but keeps its own format note as its
  label. The keys of the map are the non-empty labels of the formats, so such a format
  is dropped only when its format note is missing or empty.
\<close>

theorem quality_map_labels:
  "(build_qualities fs [] = Inr m \<longrightarrow>
      (\<forall>r. has_key r m \<longleftrightarrow> r \<noteq> [] \<and> (\<exists>f \<in> set fs. resolution_of f = Some r))) \<and>
   (dict_get (height f) 0 = Some h \<and>
    map_of [(2160, str ''2160p''), (1440, str ''1440p''), (1080, str ''1080p''),
            (720, str ''720p''), (480, str ''480p''), (360, str ''360p'')] h = Some label \<longrightarrow>
      resolution_of f = Some label) \<and>
   (dict_get (height f) 0 \<notin> Some ` {2160, 1440, 1080, 720, 480, 360} \<longrightarrow>
      resolution_of f = dict_get (format_note f) [])"
proof (intro conjI impI allI)
  fix r
  assume "build_qualities fs [] = Inr m"
  from build_qualities_keys [OF this]
  show "has_key r m \<longleftrightarrow> r \<noteq> [] \<and> (\<exists>f \<in> set fs. resolution_of f = Some r)"
    by (simp add: has_key_iff)
next
  assume "dict_get (height f) 0 = Some h \<and>
    map_of [(2160, str ''2160p''), (1440, str ''1440p''), (1080, str ''1080p''),
            (720, str ''720p''), (480, str ''480p''), (360, str ''360p'')] h = Some label"
  then show "resolution_of f = Some label"
    by (auto simp: resolution_of_def split: if_splits)
next
  assume "dict_get (height f) 0 \<notin> Some ` {2160, 1440, 1080, 720, 480, 360}"
  then show "resolution_of f = dict_get (format_note f) []"
    by (simp add: resolution_of_def)
qed

theorem quality_map_labels_witness:
  "build_qualities [itag137, itag133, storyboard] [] =
     Inr [(str ''1080p'', \<lparr>ref_id = str ''137'', ref_type = Video\<rparr>),
          (str ''240p'', \<lparr>ref_id = str ''133'', ref_type = Video\<rparr>)] \<and>
   dict_get (height itag137) 0 = Some 1080 \<and>
   resolution_of itag137 = Some (str ''1080p'') \<and>
   dict_get (height itag133) 0 = Some 240 \<and>
   resolution_of itag133 = Some (str ''240p'') \<and>
   has_key (str ''240p'')
     [(str ''1080p'', \<lparr>ref_id = str ''137'', ref_type = Video\<rparr>),
      (str ''240p'', \<lparr>ref_id = str ''133'', ref_type = Video\<rparr>)]"
proof -
  let ?fs = "[itag137, itag133, storyboard]"
  let ?m = "[(str ''1080p'', \<lparr>ref_id = str ''137'', ref_type = Video\<rparr>),
             (str ''240p'', \<lparr>ref_id = str ''133'', ref_type = Video\<rparr>)]"
  have built: "build_qualities ?fs [] = Inr ?m"
    by (simp add: itag137_def itag133_def storyboard_def add_format_def resolution_of_def
        str_def sublist_Cons_right)
  have h137: "dict_get (height itag137) 0 = Some 1080"
    by (simp add: itag137_def)
  have h133: "dict_get (height itag133) 0 = Some 240"
    and n133: "dict_get (format_note itag133) [] = Some (str ''240p'')"
    by (simp_all add: itag133_def)
  from h137 quality_map_labels [of ?fs ?m itag137 1080 "str ''1080p''"]
  have r137: "resolution_of itag137 = Some (str ''1080p'')" by simp
  from h133 n133 quality_map_labels [of ?fs ?m itag133]
  have r133: "resolution_of itag133 = Some (str ''240p'')" by auto
  have "str ''240p'' \<noteq> []" by (simp add: str_def)
  with built r133 quality_map_labels [of ?fs ?m]
  have key: "has_key (str ''240p'') ?m" by auto
  from built h137 r137 h133 r133 key show ?thesis by simp
qed

lemma classified_by_the_word_audio:
  assumes "add_format f m = Inr m'" and "resolution_of f = Some r" and "r \<noteq> []"
  shows "\<exists>fid codec. format_id f = Some fid \<and>
      dict_get (acodec f) (str ''none'') = Some codec \<and>
      map_of m' r = Some \<lparr>ref_id = fid,
        ref_type = (if sublist (str ''audio'') codec then Progressive else Video)\<rparr>"
proof -
  from assms(1) obtain fid where fid: "format_id f = Some fid"
    by (cases "format_id f") (simp_all add: add_format_def)
  with assms obtain codec where codec: "dict_get (acodec f) (str ''none'') = Some codec"
    by (cases "dict_get (acodec f) (str ''none'')") (simp_all add: add_format_def)
  with fid assms have "m' = AList.update r
      \<lparr>ref_id = fid,
       ref_type = (if sublist (str ''audio'') codec then Progressive else Video)\<rparr> m"
    by (simp add: add_format_def split: if_splits)
  then have "map_of m' r = Some \<lparr>ref_id = fid,
      ref_type = (if sublist (str ''audio'') codec then Progressive else Video)\<rparr>"
    by (simp only: update_conv' fun_upd_same)
  with fid codec show ?thesis by blast
qed


section \<open>The download branches\<close>

lemma watch_url_ok: "is_youtube_url watch_url"
  by (simp add: watch_url_def is_youtube_url_def re_match_def youtube_regex_def str_def)

lemma video_only_qualities:
  "build_qualities (formats video_only_info) [] =
     Inr [(str ''1080p'', \<lparr>ref_id = str ''137'', ref_type = Video\<rparr>),
          (str ''240p'', \<lparr>ref_id = str ''133'', ref_type = Video\<rparr>)]"
  by (simp add: video_only_info_def itag137_def itag133_def storyboard_def add_format_def
      resolution_of_def str_def sublist_Cons_right)

lemma video_only_get_info:
  "get_video_info (disk_engine video_only_info) watch_url \<lparr>world = [], trace = []\<rparr> =
     (Some (\<lparr>vi_title = Some (str ''My: Video?'')\<rparr>,
            [(str ''1080p'', \<lparr>ref_id = str ''137'', ref_type = Video\<rparr>),
             (str ''240p'', \<lparr>ref_id = str ''133'', ref_type = Video\<rparr>)],
            video_only_info),
      \<lparr>world = [], trace = [Extract watch_url]\<rparr>)"
  by (simp add: get_video_info_def call_extract_def disk_engine_def video_only_qualities)
     (simp add: video_only_info_def)

lemma video_only_no_candidates: "filter audio_candidate (formats video_only_info) = []"
  by (simp add: video_only_info_def itag137_def itag133_def storyboard_def
      audio_candidate_def has_audio_codec_def)

lemma video_only_match:
  "find_best_quality_match (str ''1080p'')
     [(str ''1080p'', \<lparr>ref_id = str ''137'', ref_type = Video\<rparr>),
      (str ''240p'', \<lparr>ref_id = str ''133'', ref_type = Video\<rparr>)] = Some (str ''1080p'')"
  by (simp add: find_best_quality_match_def has_key_def)

text \<open>
  C4, as stated, fails in its second half. With no audio candidate among the formats,
  the request for the video-only 1080p stream ends in the failure, the only call made
  is the extraction, and no file has been written: the video was not fetched.
\<close>

theorem audio_missing_before_fetch_counterexample:
  "download_video (disk_engine video_only_info) watch_url (str ''1080p'')
     \<lparr>world = [], trace = []\<rparr> =
   (Inr (Failure (str ''No valid audio formats found!'')),
    \<lparr>world = [], trace = [Extract watch_url]\<rparr>)"
  by (simp add: download_video_def watch_url_ok video_only_get_info video_only_match
      download_and_merge_def video_only_no_candidates Let_def)
     (simp add: str_def)


lemma empty_url_rejected: "\<not> is_youtube_url []"
  by (simp add: is_youtube_url_def re_match_def youtube_regex_def str_def)

lemma get_video_info_Some:
  assumes "get_video_info env url s = (Some (video_info, available, full_info), s1)"
  shows "build_qualities (formats full_info) [] = Inr available"
    and "trace s1 = trace s @ [Extract url]"
  using assms
  by (auto simp: get_video_info_def call_extract_def
      split: prod.splits outcome.splits option.splits sum.splits)

lemma built_key_nonempty:
  assumes "build_qualities fs [] = Inr m" and "map_of m k = Some v"
  shows "k \<noteq> []"
proof -
  from assms(2) have "k \<in> fst ` set m"
    by (metis has_key_def has_key_iff option.distinct(1))
  with build_qualities_keys [OF assms(1)] show ?thesis by auto
qed

lemma download_and_merge_no_audio:
  assumes "filter audio_candidate (formats full_info) = []"
  shows "download_and_merge env url format_info video_title full_info s =
    (Inr (Failure (str ''No valid audio formats found!'')), s)"
  using assms by (simp add: download_and_merge_def Let_def)

lemma download_video_branch:
  assumes "is_youtube_url url"
    and "get_video_info env url s = (Some (video_info, available, full_info), s1)"
    and "find_best_quality_match quality available = Some label"
    and "map_of available label = Some format_info"
    and "vi_title video_info = Some t"
  shows "download_video env url quality s =
    (if ref_type format_info = Progressive
     then download_progressive env url format_info (sanitize_filename t) s1
     else download_and_merge env url format_info (sanitize_filename t) full_info s1)"
proof -
  from assms(4) have nonempty: "available \<noteq> []" by auto
  from built_key_nonempty [OF get_video_info_Some(1) [OF assms(2)] assms(4)]
  have label: "label \<noteq> []" .
  from assms nonempty label show ?thesis
    by (simp add: download_video_def Let_def)
qed

text \<open>
  C4, amended. In the video-only branch of \<open>download_video\<close>, when no format of the
  full format list has both an audio codec (\<open>acodec != 'none'\<close>) and a bitrate
  (\<open>abr is not None\<close>), the result is the failure with the exact message
  \<open>No valid audio formats found!\<close>, and nothing has been fetched: the state is the one
  the metadata query left, whose trace holds the extraction only. The audio check
  comes before the video fetch.
\<close>

theorem audio_missing_fails_before_any_fetch:
  assumes "is_youtube_url url"
    and "get_video_info env url s = (Some (video_info, available, full_info), s1)"
    and "find_best_quality_match quality available = Some label"
    and "map_of available label = Some format_info"
    and "ref_type format_info = Video"
    and "vi_title video_info = Some t"
    and "\<forall>f \<in> set (formats full_info). \<not> (has_audio_codec f \<and> dict_get_none (abr f) \<noteq> None)"
  shows "download_video env url quality s =
      (Inr (Failure (str ''No valid audio formats found!'')), s1) \<and>
    trace s1 = trace s @ [Extract url]"
proof -
  from assms(7) have none: "filter audio_candidate (formats full_info) = []"
    by (simp add: filter_empty_conv audio_candidate_def)
  from download_video_branch [OF assms(1-4) assms(6)] assms(5)
  have "download_video env url quality s =
      download_and_merge env url format_info (sanitize_filename t) full_info s1"
    by simp
  with download_and_merge_no_audio [OF none] get_video_info_Some(2) [OF assms(2)]
  show ?thesis by simp
qed

text \<open>
  C6. For every request whose resolved format is progressive and whose single fetch
  succeeds, \<open>download_video\<close> returns a success whose file path is
  \<open>downloads/<title>.mp4\<close>, the output template of that one fetch, and whose file name
  is \<open><title>.mp4\<close>, the title being the sanitized title of the video. The
  result has no \<open>temp_files\<close> entry, which the view reads as the empty list
  (\<open>result.get('temp_files', [])\<close>) and passes to \<open>serve_file\<close>.
\<close>

theorem progressive_download_success:
  assumes "is_youtube_url url"
    and "get_video_info env url s = (Some (video_info, available, full_info), s1)"
    and "find_best_quality_match quality available = Some label"
    and "map_of available label = Some format_info"
    and "ref_type format_info = Progressive"
    and "vi_title video_info = Some t"
    and "call_fetch env (ref_id format_info)
           (in_download_folder (sanitize_filename t @ str ''.mp4'')) url s1 = (Returned u, s2)"
  shows "\<exists>r. download_video env url quality s = (Inr r, s2) \<and>
      r = Success (in_download_folder (sanitize_filename t @ str ''.mp4''))
            (sanitize_filename t @ str ''.mp4'') None \<and>
      get_temp_files r = [] \<and>
      trace s2 = trace s @ [Extract url, Fetch (ref_id format_info)
            (in_download_folder (sanitize_filename t @ str ''.mp4'')) url] \<and>
      (get_platform url = Youtube \<and> py_strip url = url \<longrightarrow>
         views_download_video env url quality s =
           (ServeFile (in_download_folder (sanitize_filename t @ str ''.mp4''))
              (sanitize_filename t @ str ''.mp4'') [], s2))"
proof -
  let ?path = "in_download_folder (sanitize_filename t @ str ''.mp4'')"
  let ?r = "Success ?path (sanitize_filename t @ str ''.mp4'') None"
  from download_video_branch [OF assms(1-4) assms(6)] assms(5)
  have "download_video env url quality s =
      download_progressive env url format_info (sanitize_filename t) s1"
    by simp
  with assms(7) have dl: "download_video env url quality s = (Inr ?r, s2)"
    by (simp add: download_progressive_def Let_def)
  from assms(7) have "trace s2 = trace s1 @ [Fetch (ref_id format_info) ?path url]"
    by (auto simp: call_fetch_def split: prod.splits)
  with get_video_info_Some(2) [OF assms(2)]
  have tr: "trace s2 = trace s @ [Extract url, Fetch (ref_id format_info) ?path url]"
    by simp
  from assms(1) empty_url_rejected have "url \<noteq> []"
    by auto
  with dl have view: "get_platform url = Youtube \<and> py_strip url = url \<longrightarrow>
      views_download_video env url quality s =
        (ServeFile ?path (sanitize_filename t @ str ''.mp4'') [], s2)"
    by (simp add: views_download_video_def Let_def)
  from dl tr view show ?thesis by simp
qed


lemma video_only_match_worst:
  "find_best_quality_match (str ''worst'')
     [(str ''1080p'', \<lparr>ref_id = str ''137'', ref_type = Video\<rparr>),
      (str ''240p'', \<lparr>ref_id = str ''133'', ref_type = Video\<rparr>)] = Some (str ''240p'')"
  by (simp add: find_best_quality_match_def has_key_def quality_preference_def str_def)

theorem audio_missing_witness:
  "is_youtube_url watch_url \<and>
   filter audio_candidate (formats video_only_info) = [] \<and>
   download_video (disk_engine video_only_info) watch_url (str ''worst'')
     \<lparr>world = [], trace = []\<rparr> =
   (Inr (Failure (str ''No valid audio formats found!'')),
    \<lparr>world = [], trace = [Extract watch_url]\<rparr>)"
proof -
  let ?fi = "\<lparr>ref_id = str ''133'', ref_type = Video\<rparr>"
  have lookup: "map_of [(str ''1080p'', \<lparr>ref_id = str ''137'', ref_type = Video\<rparr>),
      (str ''240p'', ?fi)] (str ''240p'') = Some ?fi"
    by (simp add: str_def)
  have none: "\<forall>f \<in> set (formats video_only_info).
      \<not> (has_audio_codec f \<and> dict_get_none (abr f) \<noteq> None)"
    using video_only_no_candidates by (simp add: filter_empty_conv audio_candidate_def)
  from audio_missing_fails_before_any_fetch
    [OF watch_url_ok video_only_get_info video_only_match_worst lookup _ _ none,
     of "str ''My: Video?''"]
  have "download_video (disk_engine video_only_info) watch_url (str ''worst'')
      \<lparr>world = [], trace = []\<rparr> =
    (Inr (Failure (str ''No valid audio formats found!'')),
     \<lparr>world = [], trace = [Extract watch_url]\<rparr>)"
    by simp
  with watch_url_ok video_only_no_candidates show ?thesis by simp
qed

lemma muxed_get_info:
  "get_video_info (disk_engine muxed_info) watch_url \<lparr>world = [], trace = []\<rparr> =
     (Some (\<lparr>vi_title = Some (str ''My: Video?'')\<rparr>,
            [(str ''360p'', \<lparr>ref_id = str ''18'', ref_type = Progressive\<rparr>),
             (str ''1080p'', \<lparr>ref_id = str ''137'', ref_type = Video\<rparr>)],
            muxed_info),
      \<lparr>world = [], trace = [Extract watch_url]\<rparr>)"
proof -
  have "build_qualities (formats muxed_info) [] =
     Inr [(str ''360p'', \<lparr>ref_id = str ''18'', ref_type = Progressive\<rparr>),
          (str ''1080p'', \<lparr>ref_id = str ''137'', ref_type = Video\<rparr>)]"
    by (simp add: muxed_info_def muxed360_def itag137_def add_format_def
        resolution_of_def str_def sublist_Cons_right)
  then show ?thesis
    by (simp add: get_video_info_def call_extract_def disk_engine_def)
       (simp add: muxed_info_def)
qed

lemma muxed_match_worst:
  "find_best_quality_match (str ''worst'')
     [(str ''360p'', \<lparr>ref_id = str ''18'', ref_type = Progressive\<rparr>),
      (str ''1080p'', \<lparr>ref_id = str ''137'', ref_type = Video\<rparr>)] = Some (str ''360p'')"
  by (simp add: find_best_quality_match_def has_key_def quality_preference_def str_def)

lemma sanitized_title: "sanitize_filename (str ''My: Video?'') = str ''My Video''"
  by (simp add: sanitize_filename_def illegal_chars_def py_strip_def py_isspace_def str_def)

lemma watch_url_platform: "get_platform watch_url = Youtube \<and> py_strip watch_url = watch_url"
  by (simp add: watch_url_def get_platform_def py_strip_def py_isspace_def str_def
      sublist_Cons_right)

theorem progressive_download_witness:
  "download_video (disk_engine muxed_info) watch_url (str ''worst'')
     \<lparr>world = [], trace = []\<rparr> =
   (Inr (Success (str ''downloads/My Video.mp4'') (str ''My Video.mp4'') None),
    \<lparr>world = [str ''downloads/My Video.mp4''],
     trace = [Extract watch_url,
              Fetch (str ''18'') (str ''downloads/My Video.mp4'') watch_url]\<rparr>) \<and>
   views_download_video (disk_engine muxed_info) watch_url (str ''worst'')
     \<lparr>world = [], trace = []\<rparr> =
   (ServeFile (str ''downloads/My Video.mp4'') (str ''My Video.mp4'') [],
    \<lparr>world = [str ''downloads/My Video.mp4''],
     trace = [Extract watch_url,
              Fetch (str ''18'') (str ''downloads/My Video.mp4'') watch_url]\<rparr>)"
proof -
  let ?fi = "\<lparr>ref_id = str ''18'', ref_type = Progressive\<rparr>"
  let ?s2 = "\<lparr>world = [str ''downloads/My Video.mp4''],
     trace = [Extract watch_url,
              Fetch (str ''18'') (str ''downloads/My Video.mp4'') watch_url]\<rparr>"
  have lookup: "map_of [(str ''360p'', ?fi),
      (str ''1080p'', \<lparr>ref_id = str ''137'', ref_type = Video\<rparr>)] (str ''360p'') = Some ?fi"
    by simp
  have path: "in_download_folder (sanitize_filename (str ''My: Video?'') @ str ''.mp4'') =
      str ''downloads/My Video.mp4''"
    and name: "sanitize_filename (str ''My: Video?'') @ str ''.mp4'' = str ''My Video.mp4''"
    unfolding sanitized_title by (simp_all add: in_download_folder_def str_def)
  have fetch: "call_fetch (disk_engine muxed_info) (ref_id ?fi)
      (in_download_folder (sanitize_filename (str ''My: Video?'') @ str ''.mp4'')) watch_url
      \<lparr>world = [], trace = [Extract watch_url]\<rparr> = (Returned (), ?s2)"
    by (simp add: path call_fetch_def disk_engine_def)
  from progressive_download_success
    [OF watch_url_ok muxed_get_info muxed_match_worst lookup _ _ fetch]
    watch_url_platform
  show ?thesis by (simp add: path name)
qed


section \<open>Filename cleaner\<close>

text \<open>
  C8, as stated, fails on two kinds of names that are pure ASCII, end with \<open>.mp4\<close> and
  have no illegal character. A name that starts with a space loses the space. A name
  that starts with the base64 marker is decoded: here \<open>b64decode\<close> raises on what
  follows the marker, and the name becomes \<open>video.mp4\<close>.
\<close>

theorem already_clean_names_changed_counterexample:
  "list_all (\<lambda>c. c < 128) (str '' a.mp4'') \<and>
   suffix (str ''.mp4'') (str '' a.mp4'') \<and>
   list_all (\<lambda>c. c \<notin> illegal_chars) (str '' a.mp4'') \<and>
   clean_filename utf8_console True (str '' a.mp4'') = Inr (str ''a.mp4'') \<and>
   str ''a.mp4'' \<noteq> str '' a.mp4'' \<and>
   list_all (\<lambda>c. c < 128) (str ''=_utf-8_b_.mp4'') \<and>
   suffix (str ''.mp4'') (str ''=_utf-8_b_.mp4'') \<and>
   list_all (\<lambda>c. c \<notin> illegal_chars) (str ''=_utf-8_b_.mp4'') \<and>
   \<not> py_isspace (hd (str ''=_utf-8_b_.mp4'')) \<and>
   clean_filename utf8_console True (str ''=_utf-8_b_.mp4'') = Inr (str ''video.mp4'') \<and>
   str ''video.mp4'' \<noteq> str ''=_utf-8_b_.mp4''"
  by (simp add: clean_filename_def decode_filename_def try_decode_def py_b64decode_def
      b64_part_of_def b64_alphabet_def print_ok_def failure_text_def utf8_console_def
      safe_stem_def py_lower_def lower_cp_def py_strip_def py_isspace_def illegal_chars_def
      str_def suffix_to_prefix Let_def)


text \<open>
  The \<open>print\<close> of the \<open>except\<close> branch can raise: \<open>b64decode\<close> rejects the lone
  surrogate after the marker, and a UTF-8 console cannot encode the name.
\<close>

lemma print_raises_on_surrogate:
  "clean_filename utf8_console True (str ''=_utf-8_b_'' @ [55296]) = Inl UnicodeEncodeError"
  by (simp add: clean_filename_def decode_filename_def try_decode_def py_b64decode_def
      b64_part_of_def print_ok_def failure_text_def utf8_console_def
      py_lower_def lower_cp_def str_def suffix_to_prefix Let_def)


lemma py_lower_append: "py_lower (a @ b) = py_lower a @ py_lower b"
  by (simp add: py_lower_def)

lemma py_lower_mp4: "py_lower (str ''.mp4'') = str ''.mp4''"
  by (simp add: py_lower_def lower_cp_def str_def)

lemma suffix_mp4_lower: "suffix (str ''.mp4'') s \<Longrightarrow> suffix (str ''.mp4'') (py_lower s)"
  by (auto simp: suffix_def py_lower_append py_lower_mp4)

lemma py_strip_fixed:
  assumes "s \<noteq> []" and "\<not> py_isspace (hd s)" and "\<not> py_isspace (last s)"
  shows "py_strip s = s"
proof -
  from assms(1,2) have front: "dropWhile py_isspace s = s"
    by (cases s) simp_all
  from assms(1,3) have "dropWhile py_isspace (rev s) = rev s"
    by (cases "rev s") (simp_all add: last_rev [symmetric] hd_rev)
  with front show ?thesis by (simp add: py_strip_def)
qed

lemma suffix_mp4_last:
  assumes "suffix (str ''.mp4'') s"
  shows "s \<noteq> [] \<and> last s = 52"
  using assms by (auto simp: suffix_def str_def)

lemma try_decode_without_question_mark:
  assumes "63 \<notin> set name" and "\<not> prefix (str ''=_utf-8_b_'') (py_lower name)"
  shows "try_decode lib name = Returned name"
  using assms by (simp add: try_decode_def py_decode_header_def)

lemma safe_stem_fixed:
  assumes "list_all (\<lambda>c. c < 128) name"
    and "suffix (str ''.mp4'') name"
    and "list_all (\<lambda>c. c \<notin> illegal_chars) name"
    and "\<not> py_isspace (hd name)"
  shows "safe_stem ascii_only name = name"
proof -
  from assms(3) have replaced: "map (\<lambda>c. if c \<in> illegal_chars then 95 else c) name = name"
    by (simp add: list_all_iff map_idI)
  from assms(1) have kept: "filter (\<lambda>c. c < 128) name = name"
    by (simp add: list_all_iff)
  from suffix_mp4_last [OF assms(2)] have "name \<noteq> []" and "\<not> py_isspace (last name)"
    by (simp_all add: py_isspace_def)
  with assms(4) have "py_strip name = name"
    by (simp add: py_strip_fixed)
  with replaced kept show ?thesis
    by (simp add: safe_stem_def Let_def)
qed

text \<open>
  C8, amended. \<open>clean_filename\<close> returns a name unchanged when the name is pure
  ASCII, ends with \<open>.mp4\<close>, contains none of the illegal characters, does not start
  with white space, and does not start, in any letter case, with the base64 marker
  \<open>=_utf-8_b_\<close>. A name with the quoted-printable marker is included: it has no
  question mark, so \<open>decode_header\<close> finds no encoded word in it. This holds for
  either value of the ASCII flag, whatever the console and the rest of the library do.
\<close>

theorem clean_filename_fixed_point:
  assumes "list_all (\<lambda>c. c < 128) name"
    and "suffix (str ''.mp4'') name"
    and "list_all (\<lambda>c. c \<notin> illegal_chars) name"
    and "\<not> py_isspace (hd name)"
    and "\<not> prefix (str ''=_utf-8_b_'') (py_lower name)"
  shows "clean_filename lib ascii_only name = Inr name"
proof -
  from assms(3) have "63 \<notin> set name"
    by (auto simp: list_all_iff illegal_chars_def)
  from try_decode_without_question_mark [OF this assms(5)]
  have decoded: "decode_filename lib name = Inr name"
    by (simp add: decode_filename_def)
  from decoded safe_stem_fixed [OF assms(1-4)] suffix_mp4_lower [OF assms(2)]
  show ?thesis
    by (simp add: clean_filename_def Let_def)
qed

theorem clean_filename_fixed_point_witness:
  "list_all (\<lambda>c. c < 128) (str ''=_utf-8_q_My_Video_.mp4'') \<and>
   suffix (str ''.mp4'') (str ''=_utf-8_q_My_Video_.mp4'') \<and>
   list_all (\<lambda>c. c \<notin> illegal_chars) (str ''=_utf-8_q_My_Video_.mp4'') \<and>
   \<not> py_isspace (hd (str ''=_utf-8_q_My_Video_.mp4'')) \<and>
   \<not> prefix (str ''=_utf-8_b_'') (py_lower (str ''=_utf-8_q_My_Video_.mp4'')) \<and>
   clean_filename utf8_console True (str ''=_utf-8_q_My_Video_.mp4'') =
     Inr (str ''=_utf-8_q_My_Video_.mp4'') \<and>
   clean_filename utf8_console False (str ''My_Video_.mp4'') = Inr (str ''My_Video_.mp4'')"
proof -
  have a: "list_all (\<lambda>c. c < 128) (str ''=_utf-8_q_My_Video_.mp4'')"
    and b: "suffix (str ''.mp4'') (str ''=_utf-8_q_My_Video_.mp4'')"
    and c: "list_all (\<lambda>c. c \<notin> illegal_chars) (str ''=_utf-8_q_My_Video_.mp4'')"
    and d: "\<not> py_isspace (hd (str ''=_utf-8_q_My_Video_.mp4''))"
    and e: "\<not> prefix (str ''=_utf-8_b_'') (py_lower (str ''=_utf-8_q_My_Video_.mp4''))"
    by (simp_all add: str_def illegal_chars_def py_isspace_def py_lower_def lower_cp_def
        suffix_to_prefix)
  have a': "list_all (\<lambda>c. c < 128) (str ''My_Video_.mp4'')"
    and b': "suffix (str ''.mp4'') (str ''My_Video_.mp4'')"
    and c': "list_all (\<lambda>c. c \<notin> illegal_chars) (str ''My_Video_.mp4'')"
    and d': "\<not> py_isspace (hd (str ''My_Video_.mp4''))"
    and e': "\<not> prefix (str ''=_utf-8_b_'') (py_lower (str ''My_Video_.mp4''))"
    by (simp_all add: str_def illegal_chars_def py_isspace_def py_lower_def lower_cp_def
        suffix_to_prefix)
  from a b c d e
    clean_filename_fixed_point [OF a b c d e, of utf8_console True]
    clean_filename_fixed_point [OF a' b' c' d' e', of utf8_console False]
  show ?thesis by simp
qed

text \<open>
  Every call of the \<open>try\<close> block that raises makes the block raise: \<open>decode_header\<close>,
  \<open>bytes.decode\<close> with the charset of a part, \<open>quopri.decodestring\<close> and the UTF-8
  decoding after it, \<open>b64decode\<close> and the UTF-8 decoding after it.
\<close>

lemma decode_parts_raise_sites:
  "truthy (Some e) \<Longrightarrow> bytes_decode lib e b = Raised m \<Longrightarrow>
     decode_parts lib ((Bytes b, Some e) # ps) d = Raised m"
  "\<not> truthy enc \<Longrightarrow> quopri_decodestring lib b = Raised m \<Longrightarrow>
     decode_parts lib ((Bytes b, enc) # ps) d = Raised m"
  "\<not> truthy enc \<Longrightarrow> quopri_decodestring lib b = Returned q \<Longrightarrow>
     bytes_decode lib (str ''utf-8'') q = Raised m \<Longrightarrow>
     decode_parts lib ((Bytes b, enc) # ps) d = Raised m"
  "decode_parts lib ps (d @ t) = Raised m \<Longrightarrow>
     decode_parts lib ((Text t, enc) # ps) d = Raised m"
  by simp_all

lemma try_decode_raise_sites:
  "prefix (str ''=_utf-8_q_'') (py_lower name) \<Longrightarrow> py_decode_header lib name = Raised m \<Longrightarrow>
     try_decode lib name = Raised m"
  "prefix (str ''=_utf-8_q_'') (py_lower name) \<Longrightarrow>
     py_decode_header lib name = Returned ps \<Longrightarrow> decode_parts lib ps [] = Raised m \<Longrightarrow>
     try_decode lib name = Raised m"
  "\<not> prefix (str ''=_utf-8_q_'') (py_lower name) \<Longrightarrow>
     prefix (str ''=_utf-8_b_'') (py_lower name) \<Longrightarrow>
     py_b64decode lib (b64_part_of name) = Raised m \<Longrightarrow> try_decode lib name = Raised m"
  "\<not> prefix (str ''=_utf-8_q_'') (py_lower name) \<Longrightarrow>
     prefix (str ''=_utf-8_b_'') (py_lower name) \<Longrightarrow>
     py_b64decode lib (b64_part_of name) = Returned bytes \<Longrightarrow>
     bytes_decode lib (str ''utf-8'') bytes = Raised m \<Longrightarrow> try_decode lib name = Raised m"
  by (simp_all add: try_decode_def)








section \<open>Cleanup after streaming\<close>

lemma read_chunks_short:
  assumes "bytes \<noteq> []" and "length bytes \<le> n"
  shows "read_chunks n bytes = [bytes]"
proof -
  from assms have "take n bytes = bytes" and "drop n bytes = []" by simp_all
  with assms(1) show ?thesis
    by (subst read_chunks.simps) (simp add: read_chunks.simps [of n "[]"])
qed

text \<open>
  C5, as stated, fails: the final file is read in full and removed, removing the video
  intermediate fails, and the audio intermediate, which comes after it in
  \<open>temp_files\<close>, is not attempted and is still there.
\<close>

theorem later_files_not_attempted_counterexample:
  "file_iterator (str ''downloads/My Video.mp4'')
     (Some [str ''downloads/My Video_video.mp4'', str ''downloads/My Video_audio.mp4''])
     merged_disk =
   Inr ([[0, 1, 2]],
        \<lparr>files =
           [(str ''downloads/My Video_video.mp4'', \<lparr>content = [3, 4], removable = False\<rparr>),
            (str ''downloads/My Video_audio.mp4'', \<lparr>content = [5], removable = True\<rparr>)],
         removals = [(str ''downloads/My Video.mp4'', True),
                     (str ''downloads/My Video_video.mp4'', False)]\<rparr>)"
  by (simp add: file_iterator_def merged_disk_def read_chunks_short cleanup_def os_remove_def
      os_path_exists_def AList.delete_eq str_def)

lemma concat_read_chunks: "0 < n \<Longrightarrow> concat (read_chunks n bytes) = bytes"
proof (induction n bytes rule: read_chunks.induct)
  case (1 chunk_size bytes)
  show ?case
  proof (cases "take chunk_size bytes = []")
    case True
    with "1.prems" have "bytes = []" by (simp add: take_eq_Nil)
    then show ?thesis by (simp add: read_chunks.simps [of chunk_size "[]"])
  next
    case False
    with "1.IH" "1.prems"
    have "concat (read_chunks chunk_size (drop chunk_size bytes)) = drop chunk_size bytes"
      by simp
    with False show ?thesis
      by (subst read_chunks.simps) simp
  qed
qed

lemma os_remove_permitted:
  assumes "may_remove st p"
  shows "os_remove p st =
    (None, \<lparr>files = AList.delete p (files st), removals = removals st @ [(p, True)]\<rparr>)"
  using assms by (auto simp: may_remove_def os_remove_def split: option.splits)

lemma os_remove_refused:
  assumes "\<not> may_remove st p"
  shows "\<exists>e. os_remove p st =
    (Some e, \<lparr>files = files st, removals = removals st @ [(p, False)]\<rparr>)"
  using assms by (auto simp: may_remove_def os_remove_def split: option.splits)

lemma after_delete:
  assumes "files st1 = AList.delete t (files st)"
  shows "os_path_exists x st1 \<longleftrightarrow> x \<noteq> t \<and> os_path_exists x st"
    and "may_remove st1 x \<longleftrightarrow> x \<noteq> t \<and> may_remove st x"
  using assms by (auto simp: os_path_exists_def may_remove_def delete_conv')

lemma set_first_occurrences: "set (first_occurrences xs) = set xs"
  by (induction xs) auto

lemma filter_deleted:
  "filter (\<lambda>(p, d). p \<notin> S) (AList.delete t fs) = filter (\<lambda>(p, d). p \<notin> insert t S) fs"
  by (induction fs) (auto simp: AList.delete_eq)

lemma map_of_filter_keys:
  "map_of (filter (\<lambda>(p, d). p \<notin> S) fs) x = (if x \<in> S then None else map_of fs x)"
  by (induction fs) auto


lemma first_occurrences_existing:
  "filter (\<lambda>x. os_path_exists x st) (first_occurrences (t # ts)) =
     (if os_path_exists t st
      then t # filter (\<lambda>x. x \<noteq> t \<and> os_path_exists x st) (first_occurrences ts)
      else filter (\<lambda>x. os_path_exists x st) (first_occurrences ts))"
proof -
  have "filter (\<lambda>x. os_path_exists x st) (filter (\<lambda>y. y \<noteq> t) (first_occurrences ts)) =
      filter (\<lambda>x. x \<noteq> t \<and> os_path_exists x st) (first_occurrences ts)"
    by (simp add: conj_commute)
  moreover have "\<not> os_path_exists t st \<Longrightarrow>
      filter (\<lambda>x. x \<noteq> t \<and> os_path_exists x st) (first_occurrences ts) =
      filter (\<lambda>x. os_path_exists x st) (first_occurrences ts)"
    by (rule filter_cong) auto
  ultimately show ?thesis by simp
qed

text \<open>
  The loop over \<open>temp_files\<close> removes the existing paths in their order, up to the
  first that may not be removed, and records that one as the failed call.
\<close>

lemma remove_temp_files_exact:
  "snd (remove_temp_files ts st) =
     \<lparr>files = filter (\<lambda>(p, d). p \<notin> set (takeWhile (may_remove st)
          (filter (\<lambda>x. os_path_exists x st) (first_occurrences ts)))) (files st),
      removals = removals st @
        map (\<lambda>p. (p, True)) (takeWhile (may_remove st)
          (filter (\<lambda>x. os_path_exists x st) (first_occurrences ts))) @
        map (\<lambda>p. (p, False)) (take 1 (dropWhile (may_remove st)
          (filter (\<lambda>x. os_path_exists x st) (first_occurrences ts))))\<rparr>"
proof (induction ts arbitrary: st)
  case Nil
  show ?case by simp
next
  case (Cons t ts)
  show ?case
  proof (cases "os_path_exists t st")
    case False
    then have "remove_temp_files (t # ts) st = remove_temp_files ts st" by simp
    with Cons.IH [of st] False show ?thesis
      by (simp only: first_occurrences_existing if_False)
  next
    case True
    define rest where "rest = filter (\<lambda>x. x \<noteq> t \<and> os_path_exists x st) (first_occurrences ts)"
    from True have targets:
      "filter (\<lambda>x. os_path_exists x st) (first_occurrences (t # ts)) = t # rest"
      by (simp only: first_occurrences_existing if_True rest_def)
    show ?thesis
    proof (cases "may_remove st t")
      case False
      from os_remove_refused [OF False] obtain e where
        "os_remove t st = (Some e, \<lparr>files = files st, removals = removals st @ [(t, False)]\<rparr>)"
        by blast
      with True have "snd (remove_temp_files (t # ts) st) =
          \<lparr>files = files st, removals = removals st @ [(t, False)]\<rparr>"
        by simp
      with False show ?thesis
        unfolding targets by simp
    next
      case permitted: True
      define st1 where
        "st1 = \<lparr>files = AList.delete t (files st), removals = removals st @ [(t, True)]\<rparr>"
      have files1: "files st1 = AList.delete t (files st)"
        and removals1: "removals st1 = removals st @ [(t, True)]"
        by (simp_all add: st1_def)
      from os_remove_permitted [OF permitted] True
      have step: "remove_temp_files (t # ts) st = remove_temp_files ts st1"
        by (simp add: st1_def)
      have rest1: "filter (\<lambda>x. os_path_exists x st1) (first_occurrences ts) = rest"
        unfolding rest_def by (rule filter_cong) (simp_all add: after_delete(1) [OF files1])
      have same: "may_remove st1 x \<longleftrightarrow> may_remove st x" if "x \<in> set rest" for x
        using that by (auto simp: rest_def after_delete(2) [OF files1])
      have ok1: "takeWhile (may_remove st1) rest = takeWhile (may_remove st) rest"
        by (rule takeWhile_cong) (simp_all add: same)
      have bad1: "dropWhile (may_remove st1) rest = dropWhile (may_remove st) rest"
        by (rule dropWhile_cong) (simp_all add: same)
      from Cons.IH [of st1]
      have "snd (remove_temp_files ts st1) =
          \<lparr>files = filter (\<lambda>(p, d). p \<notin> set (takeWhile (may_remove st) rest))
              (AList.delete t (files st)),
           removals = (removals st @ [(t, True)]) @
             map (\<lambda>p. (p, True)) (takeWhile (may_remove st) rest) @
             map (\<lambda>p. (p, False)) (take 1 (dropWhile (may_remove st) rest))\<rparr>"
        by (simp only: rest1 ok1 bad1 files1 removals1)
      with step permitted show ?thesis
        unfolding targets by (simp add: filter_deleted)
    qed
  qed
qed


lemma cleanup_exact:
  assumes "map_of (files st) path = Some f"
  shows "cleanup path temp_files st =
     \<lparr>files = filter (\<lambda>(p, d). p \<notin> set (takeWhile (may_remove st)
          (cleanup_targets path temp_files st))) (files st),
      removals = removals st @
        map (\<lambda>p. (p, True)) (takeWhile (may_remove st) (cleanup_targets path temp_files st)) @
        map (\<lambda>p. (p, False))
          (take 1 (dropWhile (may_remove st) (cleanup_targets path temp_files st)))\<rparr>"
proof (cases "may_remove st path")
  case False
  from os_remove_refused [OF False] obtain e where
    "os_remove path st = (Some e, \<lparr>files = files st, removals = removals st @ [(path, False)]\<rparr>)"
    by blast
  then have "cleanup path temp_files st =
      \<lparr>files = files st, removals = removals st @ [(path, False)]\<rparr>"
    by (simp add: cleanup_def)
  with False show ?thesis
    by (simp add: cleanup_targets_def)
next
  case True
  define st0 where
    "st0 = \<lparr>files = AList.delete path (files st), removals = removals st @ [(path, True)]\<rparr>"
  define rest where "rest = filter (\<lambda>t. t \<noteq> path \<and> os_path_exists t st)
    (first_occurrences (temp_list temp_files))"
  have files0: "files st0 = AList.delete path (files st)"
    and removals0: "removals st0 = removals st @ [(path, True)]"
    by (simp_all add: st0_def)
  from os_remove_permitted [OF True]
  have "cleanup path temp_files st = snd (remove_temp_files (temp_list temp_files) st0)"
    by (cases temp_files) (simp_all add: cleanup_def st0_def)
  moreover have rest0:
    "filter (\<lambda>x. os_path_exists x st0) (first_occurrences (temp_list temp_files)) = rest"
    unfolding rest_def by (rule filter_cong) (simp_all add: after_delete(1) [OF files0])
  moreover have same: "may_remove st0 x \<longleftrightarrow> may_remove st x" if "x \<in> set rest" for x
    using that by (auto simp: rest_def after_delete(2) [OF files0])
  have "takeWhile (may_remove st0) rest = takeWhile (may_remove st) rest"
    by (rule takeWhile_cong) (simp_all add: same)
  moreover have "dropWhile (may_remove st0) rest = dropWhile (may_remove st) rest"
    by (rule dropWhile_cong) (simp_all add: same)
  ultimately have "cleanup path temp_files st =
      \<lparr>files = filter (\<lambda>(p, d). p \<notin> set (takeWhile (may_remove st) rest))
          (AList.delete path (files st)),
       removals = (removals st @ [(path, True)]) @
         map (\<lambda>p. (p, True)) (takeWhile (may_remove st) rest) @
         map (\<lambda>p. (p, False)) (take 1 (dropWhile (may_remove st) rest))\<rparr>"
    by (simp only: remove_temp_files_exact files0 removals0)
  moreover have "cleanup_targets path temp_files st = path # rest"
    by (simp add: cleanup_targets_def rest_def)
  ultimately show ?thesis
    using True by (simp add: filter_deleted)
qed

text \<open>
  C5, amended. When the file can be opened, \<open>file_iterator\<close> yields its bytes in
  chunks and then cleans up without ever raising. It calls \<open>os.remove\<close> on the source
  file and then, in the order of \<open>temp_files\<close>, on each path that still exists at its
  turn. The first call that fails ends the cleanup: the calls made are the successful
  ones on the targets before the first that may not be removed, then the failed one on
  that target, and nothing after it; the files left are those not removed by these
  calls. When no call fails, neither the source file nor any path of \<open>temp_files\<close>
  exists afterwards.
\<close>

theorem cleanup_in_order_until_first_failure:
  assumes "map_of (files st) path = Some f"
  shows "\<exists>st'.
      file_iterator path temp_files st = Inr (read_chunks 8192 (content f), st') \<and>
      concat (read_chunks 8192 (content f)) = content f \<and>
      files st' = filter (\<lambda>(p, d). p \<notin> set (takeWhile (may_remove st)
          (cleanup_targets path temp_files st))) (files st) \<and>
      removals st' = removals st @
        map (\<lambda>p. (p, True)) (takeWhile (may_remove st) (cleanup_targets path temp_files st)) @
        map (\<lambda>p. (p, False))
          (take 1 (dropWhile (may_remove st) (cleanup_targets path temp_files st))) \<and>
      (dropWhile (may_remove st) (cleanup_targets path temp_files st) = [] \<longrightarrow>
         map_of (files st') path = None \<and>
         (\<forall>t \<in> set (temp_list temp_files). map_of (files st') t = None))"
proof -
  let ?targets = "cleanup_targets path temp_files st"
  let ?st' = "cleanup path temp_files st"
  have run: "file_iterator path temp_files st = Inr (read_chunks 8192 (content f), ?st')"
    using assms by (simp add: file_iterator_def)
  have whole: "concat (read_chunks 8192 (content f)) = content f"
    by (rule concat_read_chunks) simp
  have files': "files ?st' =
      filter (\<lambda>(p, d). p \<notin> set (takeWhile (may_remove st) ?targets)) (files st)"
    and removals': "removals ?st' = removals st @
      map (\<lambda>p. (p, True)) (takeWhile (may_remove st) ?targets) @
      map (\<lambda>p. (p, False)) (take 1 (dropWhile (may_remove st) ?targets))"
    by (simp_all add: cleanup_exact [OF assms])
  have gone: "map_of (files ?st') path = None \<and>
      (\<forall>t \<in> set (temp_list temp_files). map_of (files ?st') t = None)"
    if all: "dropWhile (may_remove st) ?targets = []"
  proof -
    from all have "takeWhile (may_remove st) ?targets = ?targets"
      by (simp add: dropWhile_eq_Nil_conv takeWhile_eq_all_conv)
    with files' have lookup: "map_of (files ?st') x =
        (if x \<in> set ?targets then None else map_of (files st) x)" for x
      by (simp add: map_of_filter_keys)
    have "x \<in> set ?targets \<or> map_of (files st) x = None"
      if "x \<in> set (temp_list temp_files)" for x
      using that
      by (auto simp: cleanup_targets_def set_first_occurrences os_path_exists_def)
    with lookup show ?thesis
      by (auto simp: cleanup_targets_def)
  qed
  from run whole files' removals' gone show ?thesis by blast
qed

theorem cleanup_witness:
  "map_of (files cluttered_disk) (str ''downloads/My Video.mp4'') =
     Some \<lparr>content = [0, 1, 2], removable = True\<rparr> \<and>
   cleanup_targets (str ''downloads/My Video.mp4'')
     (Some [str ''downloads/My Video_audio.mp4'', str ''downloads/gone.mp4'',
            str ''downloads/My Video_video.mp4'', str ''downloads/My Video.jpg'',
            str ''downloads/My Video_audio.mp4''])
     cluttered_disk =
     [str ''downloads/My Video.mp4'', str ''downloads/My Video_audio.mp4'',
      str ''downloads/My Video_video.mp4'', str ''downloads/My Video.jpg''] \<and>
   file_iterator (str ''downloads/My Video.mp4'')
     (Some [str ''downloads/My Video_audio.mp4'', str ''downloads/gone.mp4'',
            str ''downloads/My Video_video.mp4'', str ''downloads/My Video.jpg'',
            str ''downloads/My Video_audio.mp4''])
     cluttered_disk =
   Inr ([[0, 1, 2]],
        \<lparr>files =
           [(str ''downloads/My Video_video.mp4'', \<lparr>content = [3, 4], removable = False\<rparr>),
            (str ''downloads/My Video.jpg'', \<lparr>content = [6], removable = True\<rparr>)],
         removals = [(str ''downloads/My Video.mp4'', True),
                     (str ''downloads/My Video_audio.mp4'', True),
                     (str ''downloads/My Video_video.mp4'', False)]\<rparr>)"
proof -
  let ?path = "str ''downloads/My Video.mp4''"
  let ?temps = "Some [str ''downloads/My Video_audio.mp4'', str ''downloads/gone.mp4'',
            str ''downloads/My Video_video.mp4'', str ''downloads/My Video.jpg'',
            str ''downloads/My Video_audio.mp4'']"
  have look: "map_of (files cluttered_disk) ?path =
      Some \<lparr>content = [0, 1, 2], removable = True\<rparr>"
    by (simp add: cluttered_disk_def)
  have targets: "cleanup_targets ?path ?temps cluttered_disk =
     [?path, str ''downloads/My Video_audio.mp4'',
      str ''downloads/My Video_video.mp4'', str ''downloads/My Video.jpg'']"
    by (simp add: cleanup_targets_def os_path_exists_def cluttered_disk_def str_def)
  have ok: "takeWhile (may_remove cluttered_disk)
      [?path, str ''downloads/My Video_audio.mp4'',
       str ''downloads/My Video_video.mp4'', str ''downloads/My Video.jpg''] =
     [?path, str ''downloads/My Video_audio.mp4'']"
    and bad: "dropWhile (may_remove cluttered_disk)
      [?path, str ''downloads/My Video_audio.mp4'',
       str ''downloads/My Video_video.mp4'', str ''downloads/My Video.jpg''] =
     [str ''downloads/My Video_video.mp4'', str ''downloads/My Video.jpg'']"
    by (simp_all add: may_remove_def cluttered_disk_def str_def)
  from cleanup_in_order_until_first_failure [OF look, of ?temps]
  obtain st' where run: "file_iterator ?path ?temps cluttered_disk =
      Inr (read_chunks 8192 [0, 1, 2], st')"
    and files': "files st' = filter (\<lambda>(p, d). p \<notin> set [?path, str ''downloads/My Video_audio.mp4''])
      (files cluttered_disk)"
    and removals': "removals st' = removals cluttered_disk @
      map (\<lambda>p. (p, True)) [?path, str ''downloads/My Video_audio.mp4''] @
      map (\<lambda>p. (p, False)) (take 1 [str ''downloads/My Video_video.mp4'',
        str ''downloads/My Video.jpg''])"
    unfolding targets ok bad by auto
  from files' have "files st' =
      [(str ''downloads/My Video_video.mp4'', \<lparr>content = [3, 4], removable = False\<rparr>),
       (str ''downloads/My Video.jpg'', \<lparr>content = [6], removable = True\<rparr>)]"
    by (simp add: cluttered_disk_def str_def)
  moreover from removals' have "removals st' = [(?path, True),
      (str ''downloads/My Video_audio.mp4'', True),
      (str ''downloads/My Video_video.mp4'', False)]"
    by (simp add: cluttered_disk_def)
  ultimately have "st' = \<lparr>files =
      [(str ''downloads/My Video_video.mp4'', \<lparr>content = [3, 4], removable = False\<rparr>),
       (str ''downloads/My Video.jpg'', \<lparr>content = [6], removable = True\<rparr>)],
     removals = [(?path, True), (str ''downloads/My Video_audio.mp4'', True),
       (str ''downloads/My Video_video.mp4'', False)]\<rparr>"
    by (cases st') simp
  with run look targets show ?thesis
    by (simp add: read_chunks_short)
qed

end
